theory Spec2Isabelle
  imports Complex_Main
begin

section \<open>Numbers and strings of the host language\<close>

text \<open>
  TypeScript's \<open>number\<close> is an IEEE 754 double. The numbers the code computes with or
  passes on (money in USD, limits, what a worker reported) are modelled as doubles.
  Clock readings, the configured number of messages and the count of reservations are
  integers far below \<open>2^53\<close> and are modelled as \<open>int\<close>; a timestamp written by
  \<open>new Date().toISOString()\<close> is modelled by the instant it denotes, in milliseconds
  since the epoch: the ISO strings the code stores are fixed-width UTC strings, ordered
  as their instants.
\<close>

text \<open>
  A finite double is \<open>Finite m e\<close>, the number \<open>m * 2^e\<close>; the results of the
  operations have an odd \<open>m\<close> (or are \<open>Finite 0 0\<close>), so equal numbers are equal
  terms. The two zeros are one value here: no code of this repository observes the
  sign of a zero.
\<close>

datatype double = NotANumber | PlusInfinity | MinusInfinity | Finite int int

text \<open>
  Rounding of the exact result \<open>m * 2^e\<close> to a double (binary64, round to nearest,
  ties to even): 53 bits, no bits below \<open>2^-1074\<close>, and infinity from \<open>2^1024\<close> on.
\<close>

function bit_length :: "int \<Rightarrow> nat" where
  "bit_length n = (if n \<le> 0 then 0 else Suc (bit_length (n div 2)))"
  by pat_completeness auto
termination
  by (relation "measure nat") auto

declare bit_length.simps [simp del]

function strip_zeros :: "int \<Rightarrow> int \<Rightarrow> int \<times> int" where
  "strip_zeros a e = (if a \<le> 0 \<or> odd a then (a, e) else strip_zeros (a div 2) (e + 1))"
  by pat_completeness auto
termination
  by (relation "measure (\<lambda>(a, e). nat a)") auto

declare strip_zeros.simps [simp del]

definition round_half_even :: "int \<Rightarrow> nat \<Rightarrow> int" where
  "round_half_even a s =
     (if s = 0 then a
      else
        let q = a div 2 ^ s; r = a mod 2 ^ s; h = 2 ^ (s - 1)
        in if r > h \<or> (r = h \<and> odd q) then q + 1 else q)"

definition pack :: "bool \<Rightarrow> int \<Rightarrow> int \<Rightarrow> double" where
  "pack neg a e =
     (if a = 0 then Finite 0 0
      else if int (bit_length a) + e > 1024 then (if neg then MinusInfinity else PlusInfinity)
      else (case strip_zeros a e of (a', e') \<Rightarrow> Finite (if neg then - a' else a') e'))"

definition round_double :: "int \<Rightarrow> int \<Rightarrow> double" where
  "round_double m e =
     (let a = \<bar>m\<bar>;
          s = max (int (bit_length a) - 53) (- 1074 - e)
      in if s \<le> 0 then pack (m < 0) a e
         else pack (m < 0) (round_half_even a (nat s)) (e + s))"

text \<open>An integer as a number, and the double nearest to the fraction \<open>p / q\<close>.\<close>

definition double_of_int :: "int \<Rightarrow> double" where
  "double_of_int n = round_double n 0"

definition double_of_ratio :: "int \<Rightarrow> int \<Rightarrow> double" where
  "double_of_ratio p q =
     (let a = \<bar>p\<bar>;
          k = nat (max 0 (55 + int (bit_length q) - int (bit_length a)));
          n = (a * 2 ^ k) div q;
          sticky = (if (a * 2 ^ k) mod q = 0 then 0 else 1)
      in round_double ((if p < 0 then -1 else 1) * (2 * n + sticky)) (- int k - 1))"

text \<open>
  \<open>+\<close>, \<open>-\<close>, \<open>*\<close>, \<open><=\<close> and \<open><\<close> of the runtime: the exact result, rounded;
  \<open>NaN\<close> is unordered.
\<close>

definition is_zero :: "double \<Rightarrow> bool" where
  "is_zero x = (case x of Finite m e \<Rightarrow> m = 0 | _ \<Rightarrow> False)"

definition is_negative :: "double \<Rightarrow> bool" where
  "is_negative x = (case x of Finite m e \<Rightarrow> m < 0 | MinusInfinity \<Rightarrow> True | _ \<Rightarrow> False)"

instantiation double :: "{zero, plus, minus, times, ord}"
begin

definition zero_double :: double where
  "zero_double = Finite 0 0"

definition plus_double :: "double \<Rightarrow> double \<Rightarrow> double" where
  "plus_double x y =
     (case (x, y) of
        (NotANumber, _) \<Rightarrow> NotANumber
      | (_, NotANumber) \<Rightarrow> NotANumber
      | (PlusInfinity, MinusInfinity) \<Rightarrow> NotANumber
      | (MinusInfinity, PlusInfinity) \<Rightarrow> NotANumber
      | (PlusInfinity, _) \<Rightarrow> PlusInfinity
      | (MinusInfinity, _) \<Rightarrow> MinusInfinity
      | (_, PlusInfinity) \<Rightarrow> PlusInfinity
      | (_, MinusInfinity) \<Rightarrow> MinusInfinity
      | (Finite m1 e1, Finite m2 e2) \<Rightarrow>
          let e0 = min e1 e2
          in round_double (m1 * 2 ^ nat (e1 - e0) + m2 * 2 ^ nat (e2 - e0)) e0)"

definition minus_double :: "double \<Rightarrow> double \<Rightarrow> double" where
  "minus_double x y =
     (case (x, y) of
        (NotANumber, _) \<Rightarrow> NotANumber
      | (_, NotANumber) \<Rightarrow> NotANumber
      | (PlusInfinity, PlusInfinity) \<Rightarrow> NotANumber
      | (MinusInfinity, MinusInfinity) \<Rightarrow> NotANumber
      | (PlusInfinity, _) \<Rightarrow> PlusInfinity
      | (MinusInfinity, _) \<Rightarrow> MinusInfinity
      | (_, PlusInfinity) \<Rightarrow> MinusInfinity
      | (_, MinusInfinity) \<Rightarrow> PlusInfinity
      | (Finite m1 e1, Finite m2 e2) \<Rightarrow>
          let e0 = min e1 e2
          in round_double (m1 * 2 ^ nat (e1 - e0) - m2 * 2 ^ nat (e2 - e0)) e0)"

definition times_double :: "double \<Rightarrow> double \<Rightarrow> double" where
  "times_double x y =
     (case (x, y) of
        (NotANumber, _) \<Rightarrow> NotANumber
      | (_, NotANumber) \<Rightarrow> NotANumber
      | (Finite m1 e1, Finite m2 e2) \<Rightarrow> round_double (m1 * m2) (e1 + e2)
      | _ \<Rightarrow>
          if is_zero x \<or> is_zero y then NotANumber
          else if is_negative x = is_negative y then PlusInfinity
          else MinusInfinity)"

definition less_eq_double :: "double \<Rightarrow> double \<Rightarrow> bool" where
  "less_eq_double x y =
     (case (x, y) of
        (NotANumber, _) \<Rightarrow> False
      | (_, NotANumber) \<Rightarrow> False
      | (MinusInfinity, _) \<Rightarrow> True
      | (_, PlusInfinity) \<Rightarrow> True
      | (PlusInfinity, _) \<Rightarrow> False
      | (_, MinusInfinity) \<Rightarrow> False
      | (Finite m1 e1, Finite m2 e2) \<Rightarrow>
          let e0 = min e1 e2
          in m1 * 2 ^ nat (e1 - e0) \<le> m2 * 2 ^ nat (e2 - e0))"

definition less_double :: "double \<Rightarrow> double \<Rightarrow> bool" where
  "less_double x y =
     (case (x, y) of
        (NotANumber, _) \<Rightarrow> False
      | (_, NotANumber) \<Rightarrow> False
      | (PlusInfinity, _) \<Rightarrow> False
      | (_, MinusInfinity) \<Rightarrow> False
      | (MinusInfinity, _) \<Rightarrow> True
      | (_, PlusInfinity) \<Rightarrow> True
      | (Finite m1 e1, Finite m2 e2) \<Rightarrow>
          let e0 = min e1 e2
          in m1 * 2 ^ nat (e1 - e0) < m2 * 2 ^ nat (e2 - e0))"

instance ..

end

text \<open>\<open>Math.max\<close> and \<open>Math.min\<close> of two numbers.\<close>

definition Math_max :: "double \<Rightarrow> double \<Rightarrow> double" where
  "Math_max x y =
     (if x = NotANumber \<or> y = NotANumber then NotANumber else if x \<le> y then y else x)"

definition Math_min :: "double \<Rightarrow> double \<Rightarrow> double" where
  "Math_min x y =
     (if x = NotANumber \<or> y = NotANumber then NotANumber else if x \<le> y then x else y)"

definition digit_char :: "nat \<Rightarrow> char" where
  "digit_char d = ''0123456789'' ! d"

fun show_nat :: "nat \<Rightarrow> string" where
  "show_nat n = (if n < 10 then [digit_char n] else show_nat (n div 10) @ [digit_char (n mod 10)])"

declare show_nat.simps [simp del]

text \<open>A template literal \<open>${i}\<close> of an integer-valued number.\<close>

definition show_int :: "int \<Rightarrow> string" where
  "show_int i = (if i < 0 then CHR ''-'' # show_nat (nat (- i)) else show_nat (nat i))"

text \<open>
  \<open>Array.prototype.slice(start)\<close> with one argument: a negative start counts from
  the end and is clamped at the first element, a non-negative start is clamped at the
  length. \<open>slice(-0)\<close> is \<open>slice(0)\<close>: the whole array.
\<close>

definition js_slice :: "'a list \<Rightarrow> int \<Rightarrow> 'a list" where
  "js_slice xs start =
     (let len = int (length xs);
          k = (if start < 0 then max (len + start) 0 else min start len)
      in drop (nat k) xs)"

section \<open>Conversation history (orchestrator/services/execution.ts)\<close>

datatype MessageRole = User | Assistant | System

record ConversationMessage =
  role :: MessageRole
  content :: string

definition omitted_note :: "int \<Rightarrow> ConversationMessage" where
  "omitted_note omitted =
     \<lparr>role = System,
      content = ''['' @ show_int omitted @ '' earlier messages omitted for context window efficiency]''\<rparr>"

text \<open>
  \<open>truncateHistory(history, maxMessages, logger)\<close>. The logger call writes a log line
  and has no other effect; it is left out.
\<close>

definition truncateHistory :: "ConversationMessage list \<Rightarrow> int \<Rightarrow> ConversationMessage list" where
  "truncateHistory history maxMessages =
     (if int (length history) \<le> maxMessages then history
      else
        let omitted = int (length history) - maxMessages;
            recent = js_slice history (- maxMessages)
        in omitted_note omitted # recent)"

section \<open>The executions table (db/schema.ts)\<close>

datatype ExecutionStatus = Pending | Running | Completed | Failed | Error | Timeout

record execution_row =
  exec_id :: nat
  conversationId :: nat
  containerId :: "string option"
  model :: "string option"
  status :: ExecutionStatus
  prompt :: string
  resultText :: "string option"
  errorMessage :: "string option"
  costUsd :: "double option"
  inputTokens :: "double option"
  outputTokens :: "double option"
  cacheReadTokens :: "double option"
  cacheWriteTokens :: "double option"
  durationMs :: "double option"
  numTurns :: "double option"
  startedAt :: "int option"
  finishedAt :: "int option"

text \<open>
  The messages table, and the database: the two tables the orchestration core reads
  and writes, the last row id SQLite handed out for \<open>executions\<close>
  (\<open>AUTOINCREMENT\<close>), and the engine's \<open>SUM\<close> of a non-empty list of doubles (how
  SQLite adds them up depends on its version).
\<close>

record message_row =
  msg_conversationId :: nat
  msg_role :: MessageRole
  msg_content :: string
  msg_createdAt :: int

record FlowmateDb =
  executions :: "execution_row list"
  executions_seq :: nat
  messages :: "message_row list"
  sql_sum :: "double list \<Rightarrow> double"

text \<open>An empty database, on an engine that adds the values up one after the other.\<close>

definition fresh_db :: FlowmateDb where
  "fresh_db = \<lparr>executions = [], executions_seq = 0, messages = [],
                sql_sum = foldl (+) 0\<rparr>"

section \<open>Budget tracker (orchestrator/services/cost-tracker.ts)\<close>

text \<open>
  The tracker holds the database handle and the count of pending reservations. The
  day's window \<open>[start, end)\<close> comes from \<open>dateRangeInTz(todayInTz(tz), tz)\<close>, which
  asks the runtime's time-zone tables; it is a field of the state here.
\<close>

record CostTracker =
  db :: FlowmateDb
  today_range :: "int \<times> int"
  pendingReservations :: int

text \<open>
  \<open>getDailyCost()\<close>: \<open>COALESCE(SUM(cost_usd), 0)\<close> over the rows whose
  \<open>started_at\<close> lies in the window. A row whose \<open>started_at\<close> is NULL fails the
  comparison; \<open>SUM\<close> skips a NULL \<open>cost_usd\<close> and is NULL when nothing is left.
\<close>

definition in_range :: "int \<times> int \<Rightarrow> execution_row \<Rightarrow> bool" where
  "in_range r row =
     (case startedAt row of None \<Rightarrow> False | Some t \<Rightarrow> fst r \<le> t \<and> t < snd r)"

definition getDailyCost :: "CostTracker \<Rightarrow> double" where
  "getDailyCost t =
     (case List.map_filter costUsd (filter (in_range (today_range t)) (executions (db t))) of
        [] \<Rightarrow> 0
      | c # cs \<Rightarrow> sql_sum (db t) (c # cs))"

record budget =
  allowed :: bool
  remaining :: double

text \<open>\<open>checkBudget(dailyLimit, maxBudgetPerTask = 0)\<close>: the second argument is optional.\<close>

definition checkBudget :: "CostTracker \<Rightarrow> double \<Rightarrow> double option \<Rightarrow> budget" where
  "checkBudget t dailyLimit maxBudgetPerTaskOpt =
     (let maxBudgetPerTask = (case maxBudgetPerTaskOpt of None \<Rightarrow> 0 | Some c \<Rightarrow> c);
          used = getDailyCost t;
          reserved = double_of_int (pendingReservations t) * maxBudgetPerTask;
          remaining = Math_max 0 (dailyLimit - used - reserved)
      in \<lparr>allowed = (remaining \<ge> maxBudgetPerTask), remaining = remaining\<rparr>)"

text \<open>
  \<open>reserve()\<close> increments the counter and returns a closure over its own flag
  \<open>released\<close>. The closure is modelled by its captured variable; calling it is
  \<open>call_release\<close>, which passes the tracker and the closure's flag through.
\<close>

record release_closure =
  released :: bool

definition reserve :: "CostTracker \<Rightarrow> CostTracker \<times> release_closure" where
  "reserve t = (t\<lparr>pendingReservations := pendingReservations t + 1\<rparr>, \<lparr>released = False\<rparr>)"

definition call_release :: "CostTracker \<times> release_closure \<Rightarrow> CostTracker \<times> release_closure" where
  "call_release s =
     (case s of (t, c) \<Rightarrow>
        if \<not> released c
        then (t\<lparr>pendingReservations := pendingReservations t - 1\<rparr>, c\<lparr>released := True\<rparr>)
        else (t, c))"

section \<open>JSON of the runtime\<close>

text \<open>
  A string of the runtime is a sequence of UTF-16 code units; a code unit is modelled
  by its number. \<open>js\<close> turns a literal of this theory into such a string.
\<close>

type_synonym js_string = "nat list"

definition js :: "string \<Rightarrow> js_string" where
  "js s = map of_char s"

text \<open>
  The values \<open>JSON.parse\<close> can return. An object is its list of properties in the
  order they were created; no object here has an array-index key. The type \<open>'n\<close> is
  the runtime's \<open>number\<close>: an IEEE double, not modelled. What the code needs of
  numbers is a record of three functions of the runtime: the value of a JSON number
  literal, the literal \<open>JSON.stringify\<close> writes for a number (none for \<open>NaN\<close> and
  the infinities, which it writes as \<open>null\<close>), and whether a number is falsy.
\<close>

datatype 'n js_value =
    JNull
  | JBool bool
  | JNum 'n
  | JStr js_string
  | JArr "'n js_value list"
  | JObj "(js_string \<times> 'n js_value) list"

record 'n js_numbers =
  StringToNumber :: "js_string \<Rightarrow> 'n"
  NumberToString :: "'n \<Rightarrow> js_string option"
  number_is_falsy :: "'n \<Rightarrow> bool"

text \<open>
  \<open>JSON.stringify(value)\<close> with one argument, on these values.
  \<open>QuoteJSONString\<close> escapes the quote, the backslash, the control characters
  (\<open>\b \t \n \f \r\<close> by name, the others as \<open>\u00XX\<close>) and every surrogate that is
  not part of a pair; all other code units are copied.
\<close>

definition hex_digit :: "nat \<Rightarrow> nat" where
  "hex_digit d = (if d < 10 then 48 + d else 87 + d)"

definition unicode_escape :: "nat \<Rightarrow> js_string" where
  "unicode_escape c =
     [92, 117, hex_digit (c div 4096 mod 16), hex_digit (c div 256 mod 16),
      hex_digit (c div 16 mod 16), hex_digit (c mod 16)]"

definition is_lead :: "nat \<Rightarrow> bool" where
  "is_lead c = (55296 \<le> c \<and> c \<le> 56319)"

definition is_trail :: "nat \<Rightarrow> bool" where
  "is_trail c = (56320 \<le> c \<and> c \<le> 57343)"

definition quote_unit :: "nat \<Rightarrow> js_string" where
  "quote_unit c =
     (if c = 8 then [92, 98]
      else if c = 9 then [92, 116]
      else if c = 10 then [92, 110]
      else if c = 12 then [92, 102]
      else if c = 13 then [92, 114]
      else if c = 34 then [92, 34]
      else if c = 92 then [92, 92]
      else if c < 32 \<or> is_lead c \<or> is_trail c then unicode_escape c
      else [c])"

fun quote_units :: "js_string \<Rightarrow> js_string" where
  "quote_units [] = []"
| "quote_units [c] = quote_unit c"
| "quote_units (c # d # cs) =
     (if is_lead c \<and> is_trail d then c # d # quote_units cs
      else quote_unit c @ quote_units (d # cs))"

definition QuoteJSONString :: "js_string \<Rightarrow> js_string" where
  "QuoteJSONString s = 34 # quote_units s @ [34]"

fun join_commas :: "js_string list \<Rightarrow> js_string" where
  "join_commas [] = []"
| "join_commas [x] = x"
| "join_commas (x # y # r) = x @ 44 # join_commas (y # r)"

fun JSON_stringify :: "'n js_numbers \<Rightarrow> 'n js_value \<Rightarrow> js_string" where
  "JSON_stringify rt JNull = js ''null''"
| "JSON_stringify rt (JBool b) = (if b then js ''true'' else js ''false'')"
| "JSON_stringify rt (JNum n) = (case NumberToString rt n of None \<Rightarrow> js ''null'' | Some lit \<Rightarrow> lit)"
| "JSON_stringify rt (JStr s) = QuoteJSONString s"
| "JSON_stringify rt (JArr vs) = 91 # join_commas (map (JSON_stringify rt) vs) @ [93]"
| "JSON_stringify rt (JObj kvs) =
     123 # join_commas (map (\<lambda>(k, v). QuoteJSONString k @ 58 # JSON_stringify rt v) kvs) @ [125]"


text \<open>
  \<open>JSON.parse(text)\<close> with one argument: the JSON grammar of ECMA-404, by recursive
  descent. A syntax error (the \<open>SyntaxError\<close> the runtime throws) is \<open>None\<close>. The
  recursion is on a counter that starts above the length of the text; every call
  that decrements it has consumed a character.
\<close>

definition is_json_ws :: "nat \<Rightarrow> bool" where
  "is_json_ws c = (c = 9 \<or> c = 10 \<or> c = 13 \<or> c = 32)"

definition skip_ws :: "js_string \<Rightarrow> js_string" where
  "skip_ws s = dropWhile is_json_ws s"

definition hex_value :: "nat \<Rightarrow> nat option" where
  "hex_value c =
     (if 48 \<le> c \<and> c \<le> 57 then Some (c - 48)
      else if 97 \<le> c \<and> c \<le> 102 then Some (c - 87)
      else if 65 \<le> c \<and> c \<le> 70 then Some (c - 55)
      else None)"

definition hex4 :: "nat \<Rightarrow> nat \<Rightarrow> nat \<Rightarrow> nat \<Rightarrow> nat option" where
  "hex4 a b c d =
     (case (hex_value a, hex_value b, hex_value c, hex_value d) of
        (Some w, Some x, Some y, Some z) \<Rightarrow> Some (4096 * w + 256 * x + 16 * y + z)
      | _ \<Rightarrow> None)"

definition simple_escape :: "nat \<Rightarrow> nat option" where
  "simple_escape e =
     (if e = 34 then Some 34
      else if e = 92 then Some 92
      else if e = 47 then Some 47
      else if e = 98 then Some 8
      else if e = 102 then Some 12
      else if e = 110 then Some 10
      else if e = 114 then Some 13
      else if e = 116 then Some 9
      else None)"

definition cons_unit :: "nat \<Rightarrow> (js_string \<times> js_string) option \<Rightarrow> (js_string \<times> js_string) option" where
  "cons_unit c r = (case r of None \<Rightarrow> None | Some (s, rest) \<Rightarrow> Some (c # s, rest))"

fun parse_string :: "js_string \<Rightarrow> (js_string \<times> js_string) option" where
  "parse_string [] = None"
| "parse_string (c # cs) =
     (if c = 34 then Some ([], cs)
      else if c = 92 then
        (case cs of
           [] \<Rightarrow> None
         | e # r \<Rightarrow>
             if e = 117 then
               (case r of
                  h1 # h2 # h3 # h4 # r' \<Rightarrow>
                    (case hex4 h1 h2 h3 h4 of
                       None \<Rightarrow> None
                     | Some u \<Rightarrow> cons_unit u (parse_string r'))
                | _ \<Rightarrow> None)
             else
               (case simple_escape e of
                  None \<Rightarrow> None
                | Some u \<Rightarrow> cons_unit u (parse_string r)))
      else if c < 32 then None
      else cons_unit c (parse_string cs))"

text \<open>
  A number: the longest run of characters that can occur in a number, which must be
  a number of the grammar (\<open>-? (0 | [1-9][0-9]*) (. [0-9]+)? ([eE] [+-]? [0-9]+)?\<close>).
  After a number the grammar allows only white space, a comma, a closing bracket or
  the end of the text, so a run that is longer than a number is a syntax error.
\<close>

definition is_digit :: "nat \<Rightarrow> bool" where
  "is_digit c = (48 \<le> c \<and> c \<le> 57)"

definition is_number_unit :: "nat \<Rightarrow> bool" where
  "is_number_unit c = (is_digit c \<or> c = 45 \<or> c = 43 \<or> c = 46 \<or> c = 101 \<or> c = 69)"

definition valid_exponent :: "js_string \<Rightarrow> bool" where
  "valid_exponent s =
     (case s of
        [] \<Rightarrow> True
      | c # r \<Rightarrow>
          (c = 101 \<or> c = 69) \<and>
          (let ds = (case r of [] \<Rightarrow> [] | d # r' \<Rightarrow> if d = 43 \<or> d = 45 then r' else r)
           in ds \<noteq> [] \<and> list_all is_digit ds))"

definition valid_fraction :: "js_string \<Rightarrow> bool" where
  "valid_fraction s =
     (case s of
        [] \<Rightarrow> True
      | c # r \<Rightarrow>
          if c = 46 then takeWhile is_digit r \<noteq> [] \<and> valid_exponent (dropWhile is_digit r)
          else valid_exponent s)"

definition valid_number :: "js_string \<Rightarrow> bool" where
  "valid_number s =
     (let s1 = (case s of [] \<Rightarrow> [] | c # r \<Rightarrow> if c = 45 then r else s)
      in case s1 of
           [] \<Rightarrow> False
         | c # r \<Rightarrow>
             if c = 48 then valid_fraction r
             else is_digit c \<and> valid_fraction (dropWhile is_digit r))"

definition scan_number :: "js_string \<Rightarrow> (js_string \<times> js_string) option" where
  "scan_number s =
     (let lit = takeWhile is_number_unit s
      in if valid_number lit then Some (lit, dropWhile is_number_unit s) else None)"

text \<open>
  The properties of a parsed object: a name that occurs again replaces the value and
  keeps its place.
\<close>

fun set_property :: "js_string \<Rightarrow> 'v \<Rightarrow> (js_string \<times> 'v) list \<Rightarrow> (js_string \<times> 'v) list" where
  "set_property k v [] = [(k, v)]"
| "set_property k v ((k', v') # ps) =
     (if k' = k then (k, v) # ps else (k', v') # set_property k v ps)"

definition make_object :: "(js_string \<times> 'v) list \<Rightarrow> (js_string \<times> 'v) list" where
  "make_object kvs = foldl (\<lambda>ps (k, v). set_property k v ps) [] kvs"

fun parse_value :: "'n js_numbers \<Rightarrow> nat \<Rightarrow> js_string \<Rightarrow> ('n js_value \<times> js_string) option"
  and parse_elements :: "'n js_numbers \<Rightarrow> nat \<Rightarrow> js_string \<Rightarrow> ('n js_value list \<times> js_string) option"
  and parse_members :: "'n js_numbers \<Rightarrow> nat \<Rightarrow> js_string \<Rightarrow> ((js_string \<times> 'n js_value) list \<times> js_string) option"
where
  "parse_value rt 0 s = None"
| "parse_value rt (Suc k) s =
     (case skip_ws s of
        [] \<Rightarrow> None
      | c # r \<Rightarrow>
          if c = 123 then
            (case skip_ws r of
               [] \<Rightarrow> None
             | d # r' \<Rightarrow>
                 if d = 125 then Some (JObj [], r')
                 else (case parse_members rt k r of
                         None \<Rightarrow> None
                       | Some (kvs, r'') \<Rightarrow> Some (JObj (make_object kvs), r'')))
          else if c = 91 then
            (case skip_ws r of
               [] \<Rightarrow> None
             | d # r' \<Rightarrow>
                 if d = 93 then Some (JArr [], r')
                 else (case parse_elements rt k r of
                         None \<Rightarrow> None
                       | Some (vs, r'') \<Rightarrow> Some (JArr vs, r'')))
          else if c = 34 then
            (case parse_string r of
               None \<Rightarrow> None
             | Some (str, r') \<Rightarrow> Some (JStr str, r'))
          else if take 4 (c # r) = js ''true'' then Some (JBool True, drop 3 r)
          else if take 5 (c # r) = js ''false'' then Some (JBool False, drop 4 r)
          else if take 4 (c # r) = js ''null'' then Some (JNull, drop 3 r)
          else (case scan_number (c # r) of
                  None \<Rightarrow> None
                | Some (lit, r') \<Rightarrow> Some (JNum (StringToNumber rt lit), r')))"
| "parse_elements rt 0 s = None"
| "parse_elements rt (Suc k) s =
     (case parse_value rt k s of
        None \<Rightarrow> None
      | Some (v, r) \<Rightarrow>
          (case skip_ws r of
             [] \<Rightarrow> None
           | d # r' \<Rightarrow>
               if d = 44 then
                 (case parse_elements rt k r' of
                    None \<Rightarrow> None
                  | Some (vs, r'') \<Rightarrow> Some (v # vs, r''))
               else if d = 93 then Some ([v], r')
               else None))"
| "parse_members rt 0 s = None"
| "parse_members rt (Suc k) s =
     (case skip_ws s of
        [] \<Rightarrow> None
      | q # r0 \<Rightarrow>
          if q \<noteq> 34 then None
          else
            (case parse_string r0 of
               None \<Rightarrow> None
             | Some (key, r1) \<Rightarrow>
                 (case skip_ws r1 of
                    [] \<Rightarrow> None
                  | c # r2 \<Rightarrow>
                      if c \<noteq> 58 then None
                      else
                        (case parse_value rt k r2 of
                           None \<Rightarrow> None
                         | Some (v, r3) \<Rightarrow>
                             (case skip_ws r3 of
                                [] \<Rightarrow> None
                              | d # r4 \<Rightarrow>
                                  if d = 44 then
                                    (case parse_members rt k r4 of
                                       None \<Rightarrow> None
                                     | Some (kvs, r5) \<Rightarrow> Some ((key, v) # kvs, r5))
                                  else if d = 125 then Some ([(key, v)], r4)
                                  else None)))))"

definition JSON_parse :: "'n js_numbers \<Rightarrow> js_string \<Rightarrow> 'n js_value option" where
  "JSON_parse rt s =
     (case parse_value rt (Suc (length s)) s of
        None \<Rightarrow> None
      | Some (v, r) \<Rightarrow> if skip_ws r = [] then Some v else None)"

section \<open>Inter-process message channel (shared/ipc.ts)\<close>

definition IPC_PREFIX :: js_string where
  "IPC_PREFIX = js ''@flowmate ''"

text \<open>\<open>String.prototype.trim\<close>: white space and line terminators of ECMAScript.\<close>

definition is_js_whitespace :: "nat \<Rightarrow> bool" where
  "is_js_whitespace c =
     (c = 9 \<or> c = 10 \<or> c = 11 \<or> c = 12 \<or> c = 13 \<or> c = 32 \<or> c = 160 \<or> c = 5760 \<or>
      (8192 \<le> c \<and> c \<le> 8202) \<or> c = 8232 \<or> c = 8233 \<or> c = 8239 \<or> c = 8287 \<or>
      c = 12288 \<or> c = 65279)"

definition js_trim :: "js_string \<Rightarrow> js_string" where
  "js_trim s = rev (dropWhile is_js_whitespace (rev (dropWhile is_js_whitespace s)))"

text \<open>
  \<open>typeof\<close>, \<open>!\<close> and property access on a parsed value; \<open>None\<close> is
  \<open>undefined\<close>. None of the names the validation reads is a property of an array
  or of \<open>Object.prototype\<close>.
\<close>

definition js_typeof :: "'n js_value option \<Rightarrow> string" where
  "js_typeof x =
     (case x of
        None \<Rightarrow> ''undefined''
      | Some JNull \<Rightarrow> ''object''
      | Some (JBool b) \<Rightarrow> ''boolean''
      | Some (JNum n) \<Rightarrow> ''number''
      | Some (JStr s) \<Rightarrow> ''string''
      | Some (JArr vs) \<Rightarrow> ''object''
      | Some (JObj kvs) \<Rightarrow> ''object'')"

definition js_not :: "'n js_numbers \<Rightarrow> 'n js_value option \<Rightarrow> bool" where
  "js_not rt x =
     (case x of
        None \<Rightarrow> True
      | Some JNull \<Rightarrow> True
      | Some (JBool b) \<Rightarrow> \<not> b
      | Some (JNum n) \<Rightarrow> number_is_falsy rt n
      | Some (JStr s) \<Rightarrow> s = []
      | Some (JArr vs) \<Rightarrow> False
      | Some (JObj kvs) \<Rightarrow> False)"

definition get_property :: "'n js_value \<Rightarrow> string \<Rightarrow> 'n js_value option" where
  "get_property obj name =
     (case obj of JObj kvs \<Rightarrow> map_of kvs (js name) | _ \<Rightarrow> None)"

definition has_property :: "'n js_value \<Rightarrow> string \<Rightarrow> bool" where
  "has_property obj name =
     (case obj of JObj kvs \<Rightarrow> js name \<in> set (map fst kvs) | _ \<Rightarrow> False)"

definition IPC_TYPES :: "string list" where
  "IPC_TYPES = [''progress'', ''result'', ''error'']"

definition isValidIpcMessage :: "'n js_numbers \<Rightarrow> 'n js_value \<Rightarrow> bool" where
  "isValidIpcMessage rt obj =
     (if js_not rt (Some obj) \<or> js_typeof (Some obj) \<noteq> ''object'' \<or> \<not> has_property obj ''type''
      then False
      else
        let msg_type = get_property obj ''type'' in
        if \<not> (\<exists>t \<in> set IPC_TYPES. msg_type = Some (JStr (js t))) then False
        else if msg_type = Some (JStr (js ''progress''))
        then js_typeof (get_property obj ''text'') = ''string''
        else if js_typeof (get_property obj ''costUsd'') \<noteq> ''number'' \<or>
                js_typeof (get_property obj ''durationMs'') \<noteq> ''number''
        then False
        else if js_not rt (get_property obj ''tokensUsed'') \<or>
                js_typeof (get_property obj ''tokensUsed'') \<noteq> ''object''
        then False
        else if msg_type = Some (JStr (js ''result''))
        then js_typeof (get_property obj ''text'') = ''string''
        else js_typeof (get_property obj ''message'') = ''string'')"

text \<open>\<open>parseIpcLine(line)\<close>: \<open>None\<close> is the \<open>null\<close> it returns.\<close>

definition parseIpcLine :: "'n js_numbers \<Rightarrow> js_string \<Rightarrow> 'n js_value option" where
  "parseIpcLine rt line =
     (let trimmed = js_trim line in
      if trimmed = [] then None
      else
        (case JSON_parse rt trimmed of
           None \<Rightarrow> None
         | Some parsed \<Rightarrow> if isValidIpcMessage rt parsed then Some parsed else None))"

definition serializeIpc :: "'n js_numbers \<Rightarrow> 'n js_value \<Rightarrow> js_string" where
  "serializeIpc rt msg = JSON_stringify rt msg"

text \<open>
  The objects of the three message types, with the properties in the order the
  runner writes them (runner/index.ts).
\<close>

definition token_usage_object :: "'n \<times> 'n \<times> 'n \<times> 'n \<Rightarrow> 'n js_value" where
  "token_usage_object u =
     (case u of (i, out, cacheRead, cacheWrite) \<Rightarrow>
        JObj [(js ''input'', JNum i), (js ''output'', JNum out),
              (js ''cacheRead'', JNum cacheRead), (js ''cacheWrite'', JNum cacheWrite)])"

definition progress_message :: "js_string \<Rightarrow> js_string \<Rightarrow> 'n js_value" where
  "progress_message text timestamp =
     JObj [(js ''type'', JStr (js ''progress'')), (js ''text'', JStr text),
           (js ''timestamp'', JStr timestamp)]"

definition result_message :: "js_string \<Rightarrow> 'n \<Rightarrow> 'n \<times> 'n \<times> 'n \<times> 'n \<Rightarrow> 'n \<Rightarrow> 'n \<Rightarrow> 'n js_value" where
  "result_message text cost usage duration turns =
     JObj [(js ''type'', JStr (js ''result'')), (js ''text'', JStr text),
           (js ''costUsd'', JNum cost), (js ''tokensUsed'', token_usage_object usage),
           (js ''durationMs'', JNum duration), (js ''numTurns'', JNum turns)]"

definition error_message :: "js_string \<Rightarrow> 'n \<Rightarrow> 'n \<times> 'n \<times> 'n \<times> 'n \<Rightarrow> 'n \<Rightarrow> 'n \<Rightarrow> 'n js_value" where
  "error_message message cost usage duration turns =
     JObj [(js ''type'', JStr (js ''error'')), (js ''message'', JStr message),
           (js ''costUsd'', JNum cost), (js ''tokensUsed'', token_usage_object usage),
           (js ''durationMs'', JNum duration), (js ''numTurns'', JNum turns)]"

subsection \<open>Values that survive serialization\<close>

text \<open>
  A number survives \<open>JSON.stringify\<close> and \<open>JSON.parse\<close> when the runtime writes
  it as a number of the JSON grammar and reads that literal back as the same number.
  The runtime does so for every finite double; \<open>NaN\<close> and the infinities are written
  as \<open>null\<close>. A value is safe when all its numbers are, and no object has two
  properties of the same name.
\<close>

definition number_round_trips :: "'n js_numbers \<Rightarrow> 'n \<Rightarrow> bool" where
  "number_round_trips rt n =
     (case NumberToString rt n of
        None \<Rightarrow> False
      | Some lit \<Rightarrow> scan_number lit = Some (lit, []) \<and> StringToNumber rt lit = n)"

fun json_safe :: "'n js_numbers \<Rightarrow> 'n js_value \<Rightarrow> bool" where
  "json_safe rt JNull = True"
| "json_safe rt (JBool b) = True"
| "json_safe rt (JNum n) = number_round_trips rt n"
| "json_safe rt (JStr s) = True"
| "json_safe rt (JArr vs) = list_all (json_safe rt) vs"
| "json_safe rt (JObj kvs) = (distinct (map fst kvs) \<and> list_all (json_safe rt) (map snd kvs))"

text \<open>What may follow a number: nothing, or a character that no number contains.\<close>

definition ends_number :: "js_string \<Rightarrow> bool" where
  "ends_number rest = (case rest of [] \<Rightarrow> True | c # r \<Rightarrow> \<not> is_number_unit c)"


text \<open>One property of an object, as \<open>JSON.stringify\<close> writes it.\<close>

definition member_text :: "'n js_numbers \<Rightarrow> js_string \<times> 'n js_value \<Rightarrow> js_string" where
  "member_text rt kv = QuoteJSONString (fst kv) @ 58 # JSON_stringify rt (snd kv)"


text \<open>
  A runtime for evaluating the channel: its numbers are the naturals, written in
  decimal digits, and \<open>NaN\<close>. A literal that is not a plain natural is outside
  this runtime and reads as \<open>NaN\<close>.
\<close>

datatype example_number = NaN | Natural nat

definition example_numbers :: "example_number js_numbers" where
  "example_numbers =
     \<lparr>StringToNumber =
        (\<lambda>lit. if lit \<noteq> [] \<and> list_all is_digit lit
               then Natural (foldl (\<lambda>a d. 10 * a + (d - 48)) 0 lit) else NaN),
      NumberToString = (\<lambda>n. case n of NaN \<Rightarrow> None | Natural k \<Rightarrow> Some (js (show_nat k))),
      number_is_falsy = (\<lambda>n. n = NaN \<or> n = Natural 0)\<rparr>"


section \<open>Worker backends (orchestrator/container/manager.ts, local-runner.ts)\<close>

text \<open>
  What a handler of a backend does when the runtime calls it: a call of one of the
  two callbacks it was given, a log line, or the removal of the temporary file.
\<close>

datatype 'n runner_effect =
    CallOnMessage "'n js_value"
  | CallOnExit "int option" "string option"
  | LogDebug js_string
  | LogWarn js_string
  | LogError js_string
  | UnlinkFile string

definition startsWith :: "js_string \<Rightarrow> js_string \<Rightarrow> bool" where
  "startsWith line prefix = (take (length prefix) line = prefix)"

text \<open>The \<open>line\<close> handler of \<open>ContainerManager.run\<close>.\<close>

definition container_on_line :: "'n js_numbers \<Rightarrow> js_string \<Rightarrow> 'n runner_effect" where
  "container_on_line rt line =
     (if startsWith line IPC_PREFIX then
        (case parseIpcLine rt (drop (length IPC_PREFIX) line) of
           Some msg \<Rightarrow> CallOnMessage msg
         | None \<Rightarrow> LogWarn line)
      else LogDebug line)"

definition MAX_STDERR_BUF :: nat where
  "MAX_STDERR_BUF = 10 * 1024"

text \<open>The \<open>line\<close> handler of \<open>LocalRunner.run\<close>, with its buffer \<open>stderrBuf\<close>.\<close>

definition local_on_line :: "'n js_numbers \<Rightarrow> js_string \<Rightarrow> js_string \<Rightarrow> 'n runner_effect \<times> js_string" where
  "local_on_line rt line stderrBuf =
     (if startsWith line IPC_PREFIX then
        (case parseIpcLine rt (drop (length IPC_PREFIX) line) of
           Some msg \<Rightarrow> (CallOnMessage msg, stderrBuf)
         | None \<Rightarrow> (LogWarn line, stderrBuf))
      else
        let buf1 = stderrBuf @ line @ [10];
            buf2 = (if length buf1 > MAX_STDERR_BUF then js_slice buf1 (- int MAX_STDERR_BUF) else buf1)
        in (LogDebug line, buf2))"

text \<open>
  The events of the child process that the runtime delivers to a backend: a chunk of
  its standard output, a line of its standard error (from the \<open>readline\<close>
  interface), \<open>exit\<close> (the process has ended; its pipes may still hold output) and
  \<open>close\<close> (the process has ended and its streams have been closed). Both backends
  listen to \<open>close\<close> and not to \<open>exit\<close>.
\<close>

datatype child_event =
    StdoutData js_string
  | StderrLine js_string
  | ProcessExit "int option" "string option"
  | Close "int option" "string option"

text \<open>The handlers \<open>ContainerManager.run\<close> registers, and a run of them.\<close>

definition container_on_event ::
  "'n js_numbers \<Rightarrow> string option \<Rightarrow> child_event \<Rightarrow> 'n runner_effect list" where
  "container_on_event rt tmpPath ev =
     (case ev of
        StdoutData chunk \<Rightarrow> [LogDebug chunk]
      | StderrLine line \<Rightarrow> [container_on_line rt line]
      | ProcessExit code signal \<Rightarrow> []
      | Close code signal \<Rightarrow>
          (case tmpPath of Some p \<Rightarrow> [UnlinkFile p] | None \<Rightarrow> []) @ [CallOnExit code signal])"

fun container_run ::
  "'n js_numbers \<Rightarrow> string option \<Rightarrow> child_event list \<Rightarrow> 'n runner_effect list" where
  "container_run rt tmpPath [] = []"
| "container_run rt tmpPath (ev # evs) =
     container_on_event rt tmpPath ev @ container_run rt tmpPath evs"

text \<open>
  The handlers \<open>LocalRunner.run\<close> registers, with the runner's map of processes and
  the buffer of diagnostic output.
\<close>

record local_runner =
  stderrBuf :: js_string
  processes :: "string list"

definition local_on_event ::
  "'n js_numbers \<Rightarrow> string \<Rightarrow> string option \<Rightarrow> child_event \<Rightarrow> local_runner \<Rightarrow>
   'n runner_effect list \<times> local_runner" where
  "local_on_event rt processId tmpPath ev st =
     (case ev of
        StdoutData chunk \<Rightarrow> ([LogDebug chunk], st)
      | StderrLine line \<Rightarrow>
          (case local_on_line rt line (stderrBuf st) of
             (eff, buf) \<Rightarrow> ([eff], st\<lparr>stderrBuf := buf\<rparr>))
      | ProcessExit code signal \<Rightarrow> ([], st)
      | Close code signal \<Rightarrow>
          let st1 = st\<lparr>processes := filter (\<lambda>p. p \<noteq> processId) (processes st)\<rparr>;
              unlink = (case tmpPath of Some p \<Rightarrow> [UnlinkFile p] | None \<Rightarrow> []);
              failed = (if code \<noteq> Some 0 \<and> js_trim (stderrBuf st1) \<noteq> []
                        then [LogError (js_trim (stderrBuf st1))] else [])
          in (unlink @ failed @ [CallOnExit code signal], st1))"

fun local_run ::
  "'n js_numbers \<Rightarrow> string \<Rightarrow> string option \<Rightarrow> child_event list \<Rightarrow> local_runner \<Rightarrow>
   'n runner_effect list" where
  "local_run rt processId tmpPath [] st = []"
| "local_run rt processId tmpPath (ev # evs) st =
     (case local_on_event rt processId tmpPath ev st of
        (effs, st1) \<Rightarrow> effs @ local_run rt processId tmpPath evs st1)"

text \<open>
  In a sequence of effects, no call of \<open>onMessage\<close> comes after a call of
  \<open>onExit\<close>.
\<close>

definition is_message_call :: "'n runner_effect \<Rightarrow> bool" where
  "is_message_call e = (case e of CallOnMessage m \<Rightarrow> True | _ \<Rightarrow> False)"

definition is_exit_call :: "'n runner_effect \<Rightarrow> bool" where
  "is_exit_call e = (case e of CallOnExit c s \<Rightarrow> True | _ \<Rightarrow> False)"

fun exit_after_messages :: "'n runner_effect list \<Rightarrow> bool" where
  "exit_after_messages [] = True"
| "exit_after_messages (e # es) =
     ((if is_exit_call e then list_all (\<lambda>x. \<not> is_message_call x) es else True) \<and>
      exit_after_messages es)"

text \<open>
  What the runtime promises of \<open>close\<close>: it is emitted after the streams of the
  child have been closed, so no line of standard error follows it.
\<close>

definition is_stderr_line :: "child_event \<Rightarrow> bool" where
  "is_stderr_line ev = (case ev of StderrLine l \<Rightarrow> True | _ \<Rightarrow> False)"

definition is_close :: "child_event \<Rightarrow> bool" where
  "is_close ev = (case ev of Close c s \<Rightarrow> True | _ \<Rightarrow> False)"

fun close_after_lines :: "child_event list \<Rightarrow> bool" where
  "close_after_lines [] = True"
| "close_after_lines (ev # evs) =
     ((if is_close ev then list_all (\<lambda>x. \<not> is_stderr_line x) evs else True) \<and>
      close_after_lines evs)"


text \<open>
  The structured message a line of the side channel carries, if any: the line starts
  with the prefix and \<open>parseIpcLine\<close> accepts the rest. The structured messages of a
  run are those of its lines, in order; the exit notifications due are those of its
  \<open>close\<close> events.
\<close>

definition event_message :: "'n js_numbers \<Rightarrow> child_event \<Rightarrow> 'n js_value option" where
  "event_message rt ev =
     (case ev of
        StderrLine line \<Rightarrow>
          if startsWith line IPC_PREFIX then parseIpcLine rt (drop (length IPC_PREFIX) line)
          else None
      | _ \<Rightarrow> None)"

definition structured_messages :: "'n js_numbers \<Rightarrow> child_event list \<Rightarrow> 'n js_value list" where
  "structured_messages rt evs = List.map_filter (event_message rt) evs"

definition event_exit :: "child_event \<Rightarrow> (int option \<times> string option) option" where
  "event_exit ev = (case ev of Close code signal \<Rightarrow> Some (code, signal) | _ \<Rightarrow> None)"

definition exit_notifications :: "child_event list \<Rightarrow> (int option \<times> string option) list" where
  "exit_notifications evs = List.map_filter event_exit evs"

text \<open>
  A run in which the process ends while a message is still in the pipe: \<open>exit\<close>
  comes before the last line, \<open>close\<close> after it.
\<close>

definition example_child_events :: "child_event list" where
  "example_child_events =
     [StderrLine (js ''starting''),
      ProcessExit (Some 0) None,
      StderrLine (js ''@flowmate {\"type\":\"progress\",\"text\":\"hi\"}''),
      Close (Some 0) None]"


section \<open>Conversation store (orchestrator/context/thread-manager.ts)\<close>

text \<open>
  \<open>getConversationHistory(db, conversationId)\<close>: the rows of the conversation,
  ordered by creation time, as role and content.
\<close>

definition getConversationHistory :: "FlowmateDb \<Rightarrow> nat \<Rightarrow> ConversationMessage list" where
  "getConversationHistory d cid =
     map (\<lambda>r. \<lparr>role = msg_role r, content = msg_content r\<rparr>)
         (sort_key msg_createdAt (filter (\<lambda>r. msg_conversationId r = cid) (messages d)))"

section \<open>Configuration and task payload (shared/types.ts)\<close>

record ConfigLimits =
  cfg_maxBudgetPerTask :: double
  cfg_maxTurnsPerTask :: double
  cfg_taskTimeoutMs :: double
  cfg_dailyBudgetLimit :: double
  cfg_maxHistoryMessages :: int

text \<open>
  An argument of an MCP server's command line. The code builds two of them with the
  runtime: \<open>path.resolve(config.database.path)\<close> and \<open>String(dailyBudgetLimit)\<close>;
  they are kept as what they are computed from.
\<close>

datatype mcp_arg = Lit string | ResolvedPath string | NumberString double

record McpServerConfig =
  command :: string
  args :: "mcp_arg list option"
  env :: "(string \<rightharpoonup> string) option"

record FlowmateConfig =
  cfg_model :: string
  cfg_timezone :: string
  cfg_database_path :: string
  cfg_allowedDirectories :: "string list"
  cfg_defaultWorkingDirectory :: string
  cfg_limits :: ConfigLimits
  cfg_tools :: "string list"
  cfg_skills_enabled :: bool
  cfg_mcpServers :: "string \<rightharpoonup> McpServerConfig"

record Attachment =
  filename :: string
  mimeType :: string
  base64 :: string

record TaskLimits =
  maxBudgetPerTask :: double
  maxTurnsPerTask :: double
  taskTimeoutMs :: double

record TaskConfig =
  executionId :: nat
  task_model :: string
  conversationMessages :: "ConversationMessage list"
  task_prompt :: string
  attachments :: "Attachment list option"
  workingDirectory :: string
  allowedDirectories :: "string list"
  mcpServers :: "string \<rightharpoonup> McpServerConfig"
  limits :: TaskLimits
  tools :: "string list"
  skills_enabled :: bool

section \<open>Worker messages as the orchestrator types them (shared/ipc.ts)\<close>

record TokenUsage =
  tu_input :: double
  tu_output :: double
  tu_cacheRead :: double
  tu_cacheWrite :: double

text \<open>
  \<open>IpcProgress text timestamp\<close>,
  \<open>IpcResult text costUsd tokensUsed durationMs numTurns\<close> and
  \<open>IpcError message costUsd tokensUsed durationMs numTurns\<close>.
\<close>

datatype IpcMessage =
    IpcProgress string string
  | IpcResult string double TokenUsage double double
  | IpcError string double TokenUsage double double

section \<open>Execution orchestrator (orchestrator/services/execution.ts)\<close>

text \<open>
  The outcome of the promise \<open>execute\<close> returns: resolved with text, cost and
  execution id, or rejected with an error message.
\<close>

datatype outcome = Resolved string double nat | Rejected string

text \<open>
  The error thrown before launch. Its message is
  \<open>Daily budget exceeded. Remaining: $\<close> followed by \<open>remaining.toFixed(2)\<close>; the
  error carries the number.
\<close>

datatype execute_error = BudgetExceeded double

text \<open>
  What one call of \<open>execute\<close> closes over: the execution's id, the task payload,
  whether the caller gave \<open>onProgress\<close>, the variables \<open>resultReceived\<close>,
  \<open>runnerId\<close> and \<open>lastProgressTime\<close>, the timer (armed until it fires or is
  cleared), the promise (settled at most once: \<open>resolve\<close> and \<open>reject\<close> of a
  settled promise do nothing), the release function of its reservation, and the calls
  made to \<open>onProgress\<close>, in order.
\<close>

record execution_closure =
  execution_id :: nat
  task :: TaskConfig
  onProgress_given :: bool
  resultReceived :: bool
  runnerId :: "string option"
  lastProgressTime :: int
  timeout_armed :: bool
  promise :: "outcome option"
  releaseReservation :: release_closure
  onProgress_calls :: "string list"

text \<open>
  The service: its tracker (which holds the database handle the service shares), its
  configuration, the in-flight executions with their runner ids, and the calls it made
  to the runner backend (\<open>run\<close> and \<open>kill\<close>), in order.
\<close>

record ExecutionService =
  costTracker :: CostTracker
  config :: FlowmateConfig
  mcpEntryPath :: string
  activeExecutions :: "(nat \<times> string option) list"
  runner_run_calls :: "TaskConfig list"
  runner_kill_calls :: "string list"

record execute_params =
  conversation_id :: nat
  user_prompt :: string
  user_attachments :: "Attachment list option"
  onProgress :: bool

definition update_db :: "(FlowmateDb \<Rightarrow> FlowmateDb) \<Rightarrow> ExecutionService \<Rightarrow> ExecutionService" where
  "update_db f svc = svc\<lparr>costTracker := (costTracker svc)\<lparr>db := f (db (costTracker svc))\<rparr>\<rparr>"

text \<open>\<open>db.insert(executions).values({...}).returning().get()\<close>\<close>

definition insert_execution ::
  "nat \<Rightarrow> string \<Rightarrow> string \<Rightarrow> int \<Rightarrow> FlowmateDb \<Rightarrow> execution_row \<times> FlowmateDb" where
  "insert_execution cid m p now d =
     (let r = \<lparr>exec_id = executions_seq d + 1, conversationId = cid, containerId = None,
                model = Some m, status = Pending, prompt = p, resultText = None,
                errorMessage = None, costUsd = None, inputTokens = None, outputTokens = None,
                cacheReadTokens = None, cacheWriteTokens = None, durationMs = None,
                numTurns = None, startedAt = Some now, finishedAt = None\<rparr>
      in (r, d\<lparr>executions := executions d @ [r], executions_seq := executions_seq d + 1\<rparr>))"

text \<open>\<open>db.update(executions).set({...}).where(eq(executions.id, id)).run()\<close>\<close>

definition update_execution :: "nat \<Rightarrow> (execution_row \<Rightarrow> execution_row) \<Rightarrow> FlowmateDb \<Rightarrow> FlowmateDb" where
  "update_execution i f d =
     d\<lparr>executions := map (\<lambda>r. if exec_id r = i then f r else r) (executions d)\<rparr>"

definition status_of :: "ExecutionService \<Rightarrow> nat \<Rightarrow> ExecutionStatus option" where
  "status_of svc i =
     map_option status (find (\<lambda>r. exec_id r = i) (executions (db (costTracker svc))))"

text \<open>
  \<open>execute(params)\<close> up to its \<open>return\<close>: everything the call does before the
  first event of the worker can arrive. \<open>now\<close> is the clock the call reads.
  \<open>runner.run\<close> is called inside the promise's executor; the backend spawns the
  worker in that call, and the result of the spawn comes back later as an event.
\<close>

definition execute ::
  "ExecutionService \<Rightarrow> execute_params \<Rightarrow> int \<Rightarrow> (execute_error + execution_closure) \<times> ExecutionService" where
  "execute svc params now =
     (let lim = cfg_limits (config svc);
          budget = checkBudget (costTracker svc) (cfg_dailyBudgetLimit lim)
                     (Some (cfg_maxBudgetPerTask lim))
      in if \<not> allowed budget then (Inl (BudgetExceeded (remaining budget)), svc)
         else
           let (tracker1, release) = reserve (costTracker svc);
               svc1 = svc\<lparr>costTracker := tracker1\<rparr>;
               fullHistory = getConversationHistory (db tracker1) (conversation_id params);
               conversationMessages = truncateHistory fullHistory (cfg_maxHistoryMessages lim);
               (execution, db2) =
                 insert_execution (conversation_id params) (cfg_model (config svc))
                   (user_prompt params) now (db tracker1);
               svc2 = update_db (\<lambda>_. db2) svc1;
               servers = (cfg_mcpServers (config svc))
                 (''flowmate'' \<mapsto>
                    \<lparr>command = ''node'',
                     args = Some [Lit (mcpEntryPath svc),
                                  Lit ''--db'', ResolvedPath (cfg_database_path (config svc)),
                                  Lit ''--budget'', NumberString (cfg_dailyBudgetLimit lim),
                                  Lit ''--timezone'', Lit (cfg_timezone (config svc))],
                     env = None\<rparr>);
               taskConfig =
                 \<lparr>executionId = exec_id execution,
                  task_model = cfg_model (config svc),
                  conversationMessages = conversationMessages,
                  task_prompt = user_prompt params,
                  attachments = user_attachments params,
                  workingDirectory = cfg_defaultWorkingDirectory (config svc),
                  allowedDirectories = cfg_allowedDirectories (config svc),
                  mcpServers = servers,
                  limits = \<lparr>maxBudgetPerTask = Math_min (cfg_maxBudgetPerTask lim) (remaining budget),
                            maxTurnsPerTask = cfg_maxTurnsPerTask lim,
                            taskTimeoutMs = cfg_taskTimeoutMs lim\<rparr>,
                  tools = cfg_tools (config svc),
                  skills_enabled = cfg_skills_enabled (config svc)\<rparr>;
               svc3 = update_db (update_execution (exec_id execution) (\<lambda>r. r\<lparr>status := Running\<rparr>)) svc2;
               svc4 = svc3\<lparr>runner_run_calls := runner_run_calls svc3 @ [taskConfig]\<rparr>;
               svc5 = svc4\<lparr>activeExecutions := activeExecutions svc4 @ [(exec_id execution, None)]\<rparr>;
               closure =
                 \<lparr>execution_id = exec_id execution, task = taskConfig,
                  onProgress_given = onProgress params, resultReceived = False,
                  runnerId = None, lastProgressTime = 0, timeout_armed = True,
                  promise = None, releaseReservation = release, onProgress_calls = []\<rparr>
           in (Inr closure, svc5))"

text \<open>
  The events that reach one execution after \<open>execute\<close> returned: the timer, a
  message from the worker, its exit (code and signal, either may be null), and the
  two ways the promise of \<open>runner.run\<close> settles.
\<close>

datatype run_event =
    TimerFired
  | Message IpcMessage
  | Exit "int option" "string option"
  | Spawned string
  | SpawnFailed string

definition PROGRESS_DEBOUNCE_MS :: int where
  "PROGRESS_DEBOUNCE_MS = 3000"

text \<open>
  \<open>resolve\<close>/\<open>reject\<close>: the first one settles the promise, and the
  \<open>finally\<close> handler then removes the execution from the map and calls the release
  function. On a settled promise both do nothing.
\<close>

definition settle :: "outcome \<Rightarrow> ExecutionService \<times> execution_closure \<Rightarrow> ExecutionService \<times> execution_closure" where
  "settle out s =
     (case s of (svc, c) \<Rightarrow>
        (case promise c of
           Some _ \<Rightarrow> (svc, c)
         | None \<Rightarrow>
            let (tracker1, release1) = call_release (costTracker svc, releaseReservation c)
            in (svc\<lparr>activeExecutions := filter (\<lambda>e. fst e \<noteq> execution_id c) (activeExecutions svc),
                    costTracker := tracker1\<rparr>,
                c\<lparr>promise := Some out, releaseReservation := release1\<rparr>)))"

definition show_code :: "int option \<Rightarrow> string" where
  "show_code code = (case code of None \<Rightarrow> ''null'' | Some n \<Rightarrow> show_int n)"

definition show_nullable :: "string option \<Rightarrow> string" where
  "show_nullable x = (case x of None \<Rightarrow> ''null'' | Some t \<Rightarrow> t)"

text \<open>
  One event, handled at clock reading \<open>now\<close>: the timer's callback, \<open>onMessage\<close>,
  \<open>onExit\<close>, and the \<open>then\<close> and \<open>catch\<close> of \<open>runner.run\<close>. A timer that was
  cleared, or has fired, never calls its callback.
\<close>

definition handle_event ::
  "int \<Rightarrow> run_event \<Rightarrow> ExecutionService \<times> execution_closure \<Rightarrow> ExecutionService \<times> execution_closure" where
  "handle_event now ev s =
     (case s of (svc, c) \<Rightarrow>
        (case ev of
           TimerFired \<Rightarrow>
             if \<not> timeout_armed c then (svc, c)
             else
               let c1 = c\<lparr>timeout_armed := False\<rparr>
               in if \<not> resultReceived c1 then
                    let svc1 = (case runnerId c1 of
                                  Some rid \<Rightarrow>
                                    if rid \<noteq> [] then svc\<lparr>runner_kill_calls := runner_kill_calls svc @ [rid]\<rparr>
                                    else svc
                                | None \<Rightarrow> svc);
                        svc2 = update_db (update_execution (execution_id c1)
                                 (\<lambda>r. r\<lparr>status := Timeout,
                                         errorMessage := Some ''Task timed out'',
                                         finishedAt := Some now\<rparr>)) svc1
                    in settle (Rejected ''Task timed out'') (svc2, c1)
                  else (svc, c1)
         | Message msg \<Rightarrow>
             (case msg of
                IpcProgress text timestamp \<Rightarrow>
                  if onProgress_given c then
                    (if now - lastProgressTime c \<ge> PROGRESS_DEBOUNCE_MS
                     then (svc, c\<lparr>lastProgressTime := now,
                                  onProgress_calls := onProgress_calls c @ [text]\<rparr>)
                     else (svc, c))
                  else (svc, c)
              | IpcResult text cost tokens duration turns \<Rightarrow>
                  let c1 = c\<lparr>resultReceived := True, timeout_armed := False\<rparr>;
                      svc1 = update_db (update_execution (execution_id c1)
                               (\<lambda>r. r\<lparr>status := Completed,
                                       resultText := Some text,
                                       costUsd := Some cost,
                                       inputTokens := Some (tu_input tokens),
                                       outputTokens := Some (tu_output tokens),
                                       cacheReadTokens := Some (tu_cacheRead tokens),
                                       cacheWriteTokens := Some (tu_cacheWrite tokens),
                                       durationMs := Some duration,
                                       numTurns := Some turns,
                                       finishedAt := Some now\<rparr>)) svc
                  in settle (Resolved text cost (execution_id c1)) (svc1, c1)
              | IpcError message cost tokens duration turns \<Rightarrow>
                  let c1 = c\<lparr>resultReceived := True, timeout_armed := False\<rparr>;
                      svc1 = update_db (update_execution (execution_id c1)
                               (\<lambda>r. r\<lparr>status := Failed,
                                       errorMessage := Some message,
                                       costUsd := Some cost,
                                       inputTokens := Some (tu_input tokens),
                                       outputTokens := Some (tu_output tokens),
                                       cacheReadTokens := Some (tu_cacheRead tokens),
                                       cacheWriteTokens := Some (tu_cacheWrite tokens),
                                       durationMs := Some duration,
                                       numTurns := Some turns,
                                       finishedAt := Some now\<rparr>)) svc
                  in settle (Rejected message) (svc1, c1))
         | Exit code signal \<Rightarrow>
             let c1 = c\<lparr>timeout_armed := False\<rparr>
             in if \<not> resultReceived c1 then
                  let errorMsg = ''Runner exited without IPC result (code='' @ show_code code
                                 @ '', signal='' @ show_nullable signal
                                 @ '', containerId='' @ show_nullable (runnerId c1) @ '')'';
                      svc1 = update_db (update_execution (execution_id c1)
                               (\<lambda>r. r\<lparr>status := Error,
                                       errorMessage := Some errorMsg,
                                       finishedAt := Some now\<rparr>)) svc
                  in settle (Rejected errorMsg) (svc1, c1)
                else (svc, c1)
         | Spawned rid \<Rightarrow>
             let c1 = c\<lparr>runnerId := Some rid\<rparr>;
                 svc1 = svc\<lparr>activeExecutions :=
                          map (\<lambda>e. if fst e = execution_id c1 then (fst e, Some rid) else e)
                              (activeExecutions svc)\<rparr>;
                 svc2 = update_db (update_execution (execution_id c1)
                          (\<lambda>r. r\<lparr>containerId := Some rid\<rparr>)) svc1
             in (svc2, c1)
         | SpawnFailed message \<Rightarrow>
             let c1 = c\<lparr>timeout_armed := False\<rparr>;
                 svc1 = update_db (update_execution (execution_id c1)
                          (\<lambda>r. r\<lparr>status := Error,
                                  errorMessage := Some message,
                                  finishedAt := Some now\<rparr>)) svc
             in settle (Rejected message) (svc1, c1)))"

text \<open>A run of the event loop: timestamped events, handled one after the other.\<close>

fun handle_events ::
  "(int \<times> run_event) list \<Rightarrow> ExecutionService \<times> execution_closure \<Rightarrow> ExecutionService \<times> execution_closure" where
  "handle_events [] s = s"
| "handle_events ((now, ev) # evs) s = handle_events evs (handle_event now ev s)"

text \<open>
  The debounce as the specification words it: a progress message invokes the callback
  if and only if no earlier message invoked it, or at least 3000 ms have passed since
  the last message that did; a message that does not invoke it is dropped for good.
  The argument \<open>lastInvoked\<close> is the arrival time of the last message that invoked the
  callback, if any.
\<close>

fun debounce_spec :: "int option \<Rightarrow> (int \<times> string \<times> string) list \<Rightarrow> string list" where
  "debounce_spec lastInvoked [] = []"
| "debounce_spec lastInvoked ((now, text, timestamp) # ms) =
     (if (case lastInvoked of None \<Rightarrow> True | Some t \<Rightarrow> now - t \<ge> 3000)
      then text # debounce_spec (Some now) ms
      else debounce_spec lastInvoked ms)"

definition progress_events :: "(int \<times> string \<times> string) list \<Rightarrow> (int \<times> run_event) list" where
  "progress_events ms = map (\<lambda>(now, text, timestamp). (now, Message (IpcProgress text timestamp))) ms"

text \<open>A configuration, a service and a call, for evaluating the orchestrator.\<close>

definition example_config :: FlowmateConfig where
  "example_config =
     \<lparr>cfg_model = ''sonnet'', cfg_timezone = ''UTC'', cfg_database_path = ''data/flowmate.db'',
      cfg_allowedDirectories = [''/work''], cfg_defaultWorkingDirectory = ''/work'',
      cfg_limits = \<lparr>cfg_maxBudgetPerTask = double_of_int 3,
                    cfg_maxTurnsPerTask = double_of_int 100,
                    cfg_taskTimeoutMs = double_of_int 50,
                    cfg_dailyBudgetLimit = double_of_int 10,
                    cfg_maxHistoryMessages = 20\<rparr>,
      cfg_tools = [''Read''], cfg_skills_enabled = True, cfg_mcpServers = Map.empty\<rparr>"

definition example_service :: "int \<Rightarrow> ExecutionService" where
  "example_service pending =
     \<lparr>costTracker = \<lparr>db = fresh_db, today_range = (1700000000000, 1700086400000),
                      pendingReservations = pending\<rparr>,
      config = example_config, mcpEntryPath = ''/opt/mcp/index.js'',
      activeExecutions = [], runner_run_calls = [], runner_kill_calls = []\<rparr>"

definition example_params :: execute_params where
  "example_params =
     \<lparr>conversation_id = 1, user_prompt = ''hello'', user_attachments = None, onProgress = True\<rparr>"

definition example_usage :: TokenUsage where
  "example_usage = \<lparr>tu_input = double_of_int 10, tu_output = double_of_int 20,
                     tu_cacheRead = 0, tu_cacheWrite = 0\<rparr>"

text \<open>
  The example call \<open>execute\<close> on a fresh service with no reservations, at clock
  reading 1700000000000, followed by the given events.
\<close>

definition example_run :: "(int \<times> run_event) list \<Rightarrow> ExecutionService \<times> execution_closure" where
  "example_run evs =
     handle_events evs
       (snd (execute (example_service 0) example_params 1700000000000),
        projr (fst (execute (example_service 0) example_params 1700000000000)))"

section \<open>Properties of the history truncation\<close>

lemma js_slice_last:
  assumes "0 < m" and "m < int (length xs)"
  shows "js_slice xs (- m) = drop (length xs - nat m) xs"
proof -
  have "nat (max (int (length xs) + - m) 0) = length xs - nat m"
    using assms by simp
  with assms show ?thesis by (simp add: js_slice_def Let_def)
qed

text \<open>
  Claim C2 as stated fails: 25 messages with \<open>maxMessages = 20\<close> give 21 entries,
  the note and the 20 most recent messages.
\<close>

theorem truncateHistory_25_20_has_21_entries:
  "length (truncateHistory (replicate 25 \<lparr>role = User, content = ''hi''\<rparr>) 20) = 21 \<and>
   length (truncateHistory (replicate 25 \<lparr>role = User, content = ''hi''\<rparr>) 20) \<noteq> 20"
  by (simp add: truncateHistory_def Let_def js_slice_def)

text \<open>
  Claim C2, as amended. For a positive \<open>maxMessages\<close>: a history of at most
  \<open>maxMessages\<close> entries is returned unchanged; a longer one becomes the system note
  that tells how many earlier messages were omitted, followed by the \<open>maxMessages\<close>
  most recent messages, which makes \<open>maxMessages + 1\<close> entries.
\<close>

theorem truncateHistory_keeps_recent_plus_note:
  assumes "0 < maxMessages"
  shows "truncateHistory history maxMessages =
           (if int (length history) \<le> maxMessages then history
            else omitted_note (int (length history) - maxMessages)
                   # drop (length history - nat maxMessages) history) \<and>
         length (truncateHistory history maxMessages) =
           (if int (length history) \<le> maxMessages then length history else nat maxMessages + 1) \<and>
         (maxMessages < int (length history) \<longrightarrow>
            hd (truncateHistory history maxMessages) =
              \<lparr>role = System,
               content = ''['' @ show_int (int (length history) - maxMessages)
                         @ '' earlier messages omitted for context window efficiency]''\<rparr>)"
proof (cases "int (length history) \<le> maxMessages")
  case True
  then show ?thesis by (simp add: truncateHistory_def)
next
  case False
  with assms have cut: "truncateHistory history maxMessages =
        omitted_note (int (length history) - maxMessages)
          # drop (length history - nat maxMessages) history"
    by (simp add: truncateHistory_def Let_def js_slice_last)
  from False assms have "length (drop (length history - nat maxMessages) history) = nat maxMessages"
    by simp
  with cut False show ?thesis by (simp add: omitted_note_def)
qed

theorem truncateHistory_keeps_recent_plus_note_witness:
  "(0::int) < 20 \<and>
   20 < int (length (replicate 25 \<lparr>role = User, content = ''hi''\<rparr>)) \<and>
   truncateHistory (replicate 25 \<lparr>role = User, content = ''hi''\<rparr>) 20 =
     \<lparr>role = System, content = ''[5 earlier messages omitted for context window efficiency]''\<rparr>
       # replicate 20 \<lparr>role = User, content = ''hi''\<rparr> \<and>
   truncateHistory (replicate 3 \<lparr>role = User, content = ''hi''\<rparr>) 20 =
     replicate 3 \<lparr>role = User, content = ''hi''\<rparr>"
  using truncateHistory_keeps_recent_plus_note [of 20 "replicate 25 \<lparr>role = User, content = ''hi''\<rparr>"]
        truncateHistory_keeps_recent_plus_note [of 20 "replicate 3 \<lparr>role = User, content = ''hi''\<rparr>"]
  by (simp add: omitted_note_def show_int_def show_nat.simps digit_char_def)

section \<open>Properties of the budget tracker\<close>

lemma getDailyCost_fresh:
  "getDailyCost \<lparr>db = fresh_db, today_range = r, pendingReservations = n\<rparr> = 0"
  by (simp add: getDailyCost_def fresh_db_def)

lemma budget_10_3_pending:
  "Math_max 0 (double_of_int 10 - 0 - double_of_int 3 * double_of_int 3) = double_of_int 1"
  "Math_max 0 (double_of_int 10 - 0 - double_of_int 2 * double_of_int 3) = double_of_int 4"
  "Math_max 0 (double_of_int 10 - 0 - double_of_int 0 * double_of_int 3) = double_of_int 10"
  "\<not> double_of_int 3 \<le> double_of_int 1"
  "double_of_int 3 \<le> double_of_int 4"
  "double_of_int 3 \<le> double_of_int 10"
  by code_simp+

lemma budget_rounded:
  "Math_max 0 (double_of_ratio 4 10 - 0 - double_of_int 3 * double_of_ratio 1 10)
     = Finite 900719925474099 (- 53)"
  "\<not> double_of_ratio 1 10 \<le> Finite 900719925474099 (- 53)"
  by code_simp+

text \<open>
  Claim C3. \<open>checkBudget\<close> returns
  \<open>remaining = max(0, dailyLimit - usedToday - reservedCount * perTaskCap)\<close> and
  \<open>allowed = (remaining >= perTaskCap)\<close>, computed as the code computes them, in
  doubles; with a daily limit of 10, a cap of 3, no recorded cost and 3 pending
  reservations it does not allow another execution.
\<close>

theorem checkBudget_formula:
  "remaining (checkBudget t dailyLimit (Some perTaskCap)) =
     Math_max 0 (dailyLimit - getDailyCost t - double_of_int (pendingReservations t) * perTaskCap) \<and>
   allowed (checkBudget t dailyLimit (Some perTaskCap)) =
     (remaining (checkBudget t dailyLimit (Some perTaskCap)) \<ge> perTaskCap) \<and>
   (getDailyCost t = 0 \<and> pendingReservations t = 3 \<longrightarrow>
      \<not> allowed (checkBudget t (double_of_int 10) (Some (double_of_int 3))))"
  by (simp add: checkBudget_def Let_def budget_10_3_pending)

text \<open>
  The claim's example after three calls of \<open>reserve()\<close>, and an example where the
  rounding decides: with a limit of 0.4 and a cap of 0.1 the three reservations come
  to 0.30000000000000004, the remainder to 0.09999999999999998, below the cap.
\<close>

theorem checkBudget_formula_witness:
  "getDailyCost (fst (reserve (fst (reserve (fst (reserve
      \<lparr>db = fresh_db, today_range = (0, 86400000), pendingReservations = 0\<rparr>)))))) = 0 \<and>
   pendingReservations (fst (reserve (fst (reserve (fst (reserve
      \<lparr>db = fresh_db, today_range = (0, 86400000), pendingReservations = 0\<rparr>)))))) = 3 \<and>
   \<not> allowed (checkBudget (fst (reserve (fst (reserve (fst (reserve
      \<lparr>db = fresh_db, today_range = (0, 86400000), pendingReservations = 0\<rparr>))))))
      (double_of_int 10) (Some (double_of_int 3))) \<and>
   remaining (checkBudget (fst (reserve (fst (reserve (fst (reserve
      \<lparr>db = fresh_db, today_range = (0, 86400000), pendingReservations = 0\<rparr>))))))
      (double_of_int 10) (Some (double_of_int 3))) = double_of_int 1 \<and>
   remaining (checkBudget (fst (reserve (fst (reserve (fst (reserve
      \<lparr>db = fresh_db, today_range = (0, 86400000), pendingReservations = 0\<rparr>))))))
      (double_of_ratio 4 10) (Some (double_of_ratio 1 10))) = Finite 900719925474099 (- 53) \<and>
   \<not> allowed (checkBudget (fst (reserve (fst (reserve (fst (reserve
      \<lparr>db = fresh_db, today_range = (0, 86400000), pendingReservations = 0\<rparr>))))))
      (double_of_ratio 4 10) (Some (double_of_ratio 1 10)))"
  using checkBudget_formula
          [of "fst (reserve (fst (reserve (fst (reserve
                 \<lparr>db = fresh_db, today_range = (0, 86400000), pendingReservations = 0\<rparr>)))))"
              "double_of_int 10" "double_of_int 3"]
        checkBudget_formula
          [of "fst (reserve (fst (reserve (fst (reserve
                 \<lparr>db = fresh_db, today_range = (0, 86400000), pendingReservations = 0\<rparr>)))))"
              "double_of_ratio 4 10" "double_of_ratio 1 10"]
  by (simp add: reserve_def getDailyCost_fresh budget_10_3_pending budget_rounded)

lemma call_release_after_first:
  "(call_release ^^ n) (t, \<lparr>released = True\<rparr>) = (t, \<lparr>released = True\<rparr>)"
  by (induction n) (simp_all add: call_release_def)

lemma call_release_times:
  "(call_release ^^ Suc n) (t, \<lparr>released = False\<rparr>) =
     (t\<lparr>pendingReservations := pendingReservations t - 1\<rparr>, \<lparr>released = True\<rparr>)"
proof -
  have "(call_release ^^ Suc n) (t, \<lparr>released = False\<rparr>) =
          (call_release ^^ n) (call_release (t, \<lparr>released = False\<rparr>))"
    by (simp only: funpow_Suc_right o_apply)
  also have "call_release (t, \<lparr>released = False\<rparr>) =
          (t\<lparr>pendingReservations := pendingReservations t - 1\<rparr>, \<lparr>released = True\<rparr>)"
    by (simp add: call_release_def)
  finally show ?thesis by (simp add: call_release_after_first)
qed

text \<open>
  Claim C4. \<open>reserve()\<close> increments the pending-reservation count by exactly 1, and
  calling the release function it returned \<open>n\<close> times, for any \<open>n \<ge> 1\<close>, decrements
  the count by exactly 1: the first call decrements, every later call changes nothing,
  whatever the tracker's state \<open>t'\<close> is by then.
\<close>

theorem release_decrements_once:
  assumes "1 \<le> n"
  shows "pendingReservations (fst (reserve t)) = pendingReservations t + 1 \<and>
         pendingReservations (fst ((call_release ^^ n) (reserve t))) =
           pendingReservations (fst (reserve t)) - 1 \<and>
         (call_release ^^ n) (reserve t) = call_release (reserve t) \<and>
         call_release (t', snd ((call_release ^^ n) (reserve t))) =
           (t', snd ((call_release ^^ n) (reserve t)))"
proof -
  from assms obtain k where n: "n = Suc k" by (cases n) auto
  have one: "call_release (reserve t) = (call_release ^^ Suc 0) (reserve t)" by simp
  have later: "call_release (t', \<lparr>released = True\<rparr>) = (t', \<lparr>released = True\<rparr>)"
    by (simp add: call_release_def)
  show ?thesis
    unfolding n one by (simp only: reserve_def call_release_times) (simp add: later)
qed

theorem release_decrements_once_witness:
  "(1::nat) \<le> 3 \<and>
   pendingReservations (fst (reserve \<lparr>db = fresh_db, today_range = (0, 86400000), pendingReservations = 2\<rparr>)) = 3 \<and>
   pendingReservations (fst ((call_release ^^ 3)
      (reserve \<lparr>db = fresh_db, today_range = (0, 86400000), pendingReservations = 2\<rparr>))) = 2"
  using release_decrements_once
          [of 3 "\<lparr>db = fresh_db, today_range = (0, 86400000), pendingReservations = 2\<rparr>"]
  by (simp add: reserve_def call_release_def eval_nat_numeral)

section \<open>Properties of the execution orchestrator\<close>

lemma allowed_cap_le:
  assumes "allowed (checkBudget t dailyLimit (Some cap))"
  shows "cap \<le> remaining (checkBudget t dailyLimit (Some cap))"
  using assms by (simp add: checkBudget_def Let_def)

lemma Math_min_allowed:
  assumes "a \<le> b"
  shows "Math_min a b = min a b"
proof -
  from assms have "a \<noteq> NotANumber" "b \<noteq> NotANumber"
    by (auto simp: less_eq_double_def split: double.splits)
  then show ?thesis by (simp add: Math_min_def min_def)
qed

lemma execute_not_allowed:
  assumes "\<not> allowed (checkBudget (costTracker svc) (cfg_dailyBudgetLimit (cfg_limits (config svc)))
                          (Some (cfg_maxBudgetPerTask (cfg_limits (config svc)))))"
  shows "execute svc params now =
           (Inl (BudgetExceeded (remaining (checkBudget (costTracker svc)
                   (cfg_dailyBudgetLimit (cfg_limits (config svc)))
                   (Some (cfg_maxBudgetPerTask (cfg_limits (config svc))))))), svc)"
  using assms by (simp add: execute_def Let_def)

lemma execute_allowed_task:
  assumes "allowed (checkBudget (costTracker svc) (cfg_dailyBudgetLimit (cfg_limits (config svc)))
                      (Some (cfg_maxBudgetPerTask (cfg_limits (config svc)))))"
  obtains c where "fst (execute svc params now) = Inr c"
    and "maxBudgetPerTask (limits (task c)) =
           min (cfg_maxBudgetPerTask (cfg_limits (config svc)))
               (remaining (checkBudget (costTracker svc)
                  (cfg_dailyBudgetLimit (cfg_limits (config svc)))
                  (Some (cfg_maxBudgetPerTask (cfg_limits (config svc))))))"
    and "runner_run_calls (snd (execute svc params now)) = runner_run_calls svc @ [task c]"
    and "onProgress_given c = onProgress params" and "lastProgressTime c = 0"
    and "onProgress_calls c = []"
proof -
  let ?c = "projr (fst (execute svc params now))"
  from assms have "fst (execute svc params now) = Inr ?c"
    by (simp add: execute_def Let_def reserve_def insert_execution_def)
  moreover from assms have "maxBudgetPerTask (limits (task ?c)) =
           min (cfg_maxBudgetPerTask (cfg_limits (config svc)))
               (remaining (checkBudget (costTracker svc)
                  (cfg_dailyBudgetLimit (cfg_limits (config svc)))
                  (Some (cfg_maxBudgetPerTask (cfg_limits (config svc))))))"
    by (simp add: execute_def Let_def reserve_def insert_execution_def
          Math_min_allowed [OF allowed_cap_le [OF assms]])
  moreover from assms have
    "runner_run_calls (snd (execute svc params now)) = runner_run_calls svc @ [task ?c]"
    by (simp add: execute_def Let_def reserve_def insert_execution_def update_db_def)
  moreover from assms have "onProgress_given ?c = onProgress params"
    "lastProgressTime ?c = 0" "onProgress_calls ?c = []"
    by (simp_all add: execute_def Let_def reserve_def insert_execution_def)
  ultimately show ?thesis using that by blast
qed

text \<open>
  Claim C6. When the budget check does not allow the execution, \<open>execute\<close> fails with
  the budget error and leaves the service as it was: no execution row is inserted, no
  reservation is taken, the runner is not called.
\<close>

theorem execute_budget_exceeded_changes_nothing:
  assumes "\<not> allowed (checkBudget (costTracker svc) (cfg_dailyBudgetLimit (cfg_limits (config svc)))
                          (Some (cfg_maxBudgetPerTask (cfg_limits (config svc)))))"
  shows "fst (execute svc params now) =
           Inl (BudgetExceeded (remaining (checkBudget (costTracker svc)
                  (cfg_dailyBudgetLimit (cfg_limits (config svc)))
                  (Some (cfg_maxBudgetPerTask (cfg_limits (config svc))))))) \<and>
         snd (execute svc params now) = svc \<and>
         executions (db (costTracker (snd (execute svc params now)))) =
           executions (db (costTracker svc)) \<and>
         pendingReservations (costTracker (snd (execute svc params now))) =
           pendingReservations (costTracker svc) \<and>
         runner_run_calls (snd (execute svc params now)) = runner_run_calls svc"
  by (simp add: execute_not_allowed [OF assms])

theorem execute_budget_exceeded_changes_nothing_witness:
  "\<not> allowed (checkBudget (costTracker (example_service 3))
                 (cfg_dailyBudgetLimit (cfg_limits (config (example_service 3))))
                 (Some (cfg_maxBudgetPerTask (cfg_limits (config (example_service 3)))))) \<and>
   execute (example_service 3) example_params 1700000000123 =
     (Inl (BudgetExceeded (double_of_int 1)), example_service 3)"
proof -
  have h: "\<not> allowed (checkBudget (costTracker (example_service 3))
                 (cfg_dailyBudgetLimit (cfg_limits (config (example_service 3))))
                 (Some (cfg_maxBudgetPerTask (cfg_limits (config (example_service 3))))))"
    by (simp add: checkBudget_def Let_def getDailyCost_def example_service_def
          example_config_def fresh_db_def budget_10_3_pending)
  have r: "remaining (checkBudget (costTracker (example_service 3))
                 (cfg_dailyBudgetLimit (cfg_limits (config (example_service 3))))
                 (Some (cfg_maxBudgetPerTask (cfg_limits (config (example_service 3))))))
             = double_of_int 1"
    by (simp add: checkBudget_def Let_def getDailyCost_def example_service_def
          example_config_def fresh_db_def budget_10_3_pending)
  from execute_budget_exceeded_changes_nothing [OF h, of example_params 1700000000123] r h
  show ?thesis by (simp add: prod_eq_iff)
qed

text \<open>
  Claim C7. When the budget check allows the execution, the per-task limit in the task
  payload handed to the runner is \<open>min(configuredPerTaskCap, remaining)\<close>, with
  \<open>remaining\<close> as the budget check computed it; it never exceeds \<open>remaining\<close>.
\<close>

theorem execute_task_cap_is_min:
  assumes "allowed (checkBudget (costTracker svc) (cfg_dailyBudgetLimit (cfg_limits (config svc)))
                      (Some (cfg_maxBudgetPerTask (cfg_limits (config svc)))))"
  shows "\<exists>c. fst (execute svc params now) = Inr c \<and>
             runner_run_calls (snd (execute svc params now)) = runner_run_calls svc @ [task c] \<and>
             maxBudgetPerTask (limits (task c)) =
               min (cfg_maxBudgetPerTask (cfg_limits (config svc)))
                   (remaining (checkBudget (costTracker svc)
                      (cfg_dailyBudgetLimit (cfg_limits (config svc)))
                      (Some (cfg_maxBudgetPerTask (cfg_limits (config svc)))))) \<and>
             maxBudgetPerTask (limits (task c)) \<le>
               remaining (checkBudget (costTracker svc)
                  (cfg_dailyBudgetLimit (cfg_limits (config svc)))
                  (Some (cfg_maxBudgetPerTask (cfg_limits (config svc)))))"
proof -
  from execute_allowed_task [OF assms, of params now] obtain c where
    "fst (execute svc params now) = Inr c"
    "maxBudgetPerTask (limits (task c)) =
           min (cfg_maxBudgetPerTask (cfg_limits (config svc)))
               (remaining (checkBudget (costTracker svc)
                  (cfg_dailyBudgetLimit (cfg_limits (config svc)))
                  (Some (cfg_maxBudgetPerTask (cfg_limits (config svc))))))"
    "runner_run_calls (snd (execute svc params now)) = runner_run_calls svc @ [task c]"
    by blast
  moreover from allowed_cap_le [OF assms]
  have "min (cfg_maxBudgetPerTask (cfg_limits (config svc)))
            (remaining (checkBudget (costTracker svc)
               (cfg_dailyBudgetLimit (cfg_limits (config svc)))
               (Some (cfg_maxBudgetPerTask (cfg_limits (config svc))))))
          \<le> remaining (checkBudget (costTracker svc)
               (cfg_dailyBudgetLimit (cfg_limits (config svc)))
               (Some (cfg_maxBudgetPerTask (cfg_limits (config svc)))))"
    by (simp add: min_def)
  ultimately show ?thesis by auto
qed

theorem execute_task_cap_is_min_witness:
  "allowed (checkBudget (costTracker (example_service 2))
              (cfg_dailyBudgetLimit (cfg_limits (config (example_service 2))))
              (Some (cfg_maxBudgetPerTask (cfg_limits (config (example_service 2)))))) \<and>
   remaining (checkBudget (costTracker (example_service 2))
              (cfg_dailyBudgetLimit (cfg_limits (config (example_service 2))))
              (Some (cfg_maxBudgetPerTask (cfg_limits (config (example_service 2))))))
     = double_of_int 4 \<and>
   (\<exists>c. fst (execute (example_service 2) example_params 1700000000123) = Inr c \<and>
        maxBudgetPerTask (limits (task c)) = double_of_int 3)"
proof -
  have h: "allowed (checkBudget (costTracker (example_service 2))
              (cfg_dailyBudgetLimit (cfg_limits (config (example_service 2))))
              (Some (cfg_maxBudgetPerTask (cfg_limits (config (example_service 2))))))"
    by (simp add: checkBudget_def Let_def getDailyCost_def example_service_def
          example_config_def fresh_db_def budget_10_3_pending)
  have r: "remaining (checkBudget (costTracker (example_service 2))
              (cfg_dailyBudgetLimit (cfg_limits (config (example_service 2))))
              (Some (cfg_maxBudgetPerTask (cfg_limits (config (example_service 2))))))
             = double_of_int 4"
    by (simp add: checkBudget_def Let_def getDailyCost_def example_service_def
          example_config_def fresh_db_def budget_10_3_pending)
  have cap: "cfg_maxBudgetPerTask (cfg_limits (config (example_service 2))) = double_of_int 3"
    by (simp add: example_service_def example_config_def)
  have m: "min (double_of_int 3) (double_of_int 4) = double_of_int 3"
    by (simp add: min_def budget_10_3_pending)
  from execute_task_cap_is_min [OF h, of example_params 1700000000123] r cap h m
  show ?thesis by auto
qed

lemma handle_progress_event:
  assumes "onProgress_given c"
  shows "handle_event now (Message (IpcProgress text timestamp)) (svc, c) =
           (svc, if now - lastProgressTime c \<ge> 3000
                 then c\<lparr>lastProgressTime := now, onProgress_calls := onProgress_calls c @ [text]\<rparr>
                 else c)"
  using assms by (simp add: handle_event_def PROGRESS_DEBOUNCE_MS_def)

lemma handle_progress_events:
  assumes "onProgress_given c"
  shows "fst (handle_events (progress_events ms) (svc, c)) = svc \<and>
         onProgress_calls (snd (handle_events (progress_events ms) (svc, c))) =
           onProgress_calls c @ debounce_spec (Some (lastProgressTime c)) ms"
  using assms
proof (induction ms arbitrary: c)
  case Nil
  then show ?case by (simp add: progress_events_def)
next
  case (Cons m ms)
  obtain now body timestamp where m: "m = (now, body, timestamp)" by (cases m) auto
  let ?c' = "if now - lastProgressTime c \<ge> 3000
             then c\<lparr>lastProgressTime := now, onProgress_calls := onProgress_calls c @ [body]\<rparr>
             else c"
  have step: "handle_events (progress_events (m # ms)) (svc, c) =
              handle_events (progress_events ms) (svc, ?c')"
    using Cons.prems by (simp add: progress_events_def m handle_progress_event)
  have given: "onProgress_given ?c'" using Cons.prems by simp
  show ?case
    unfolding step using Cons.IH [OF given] by (simp add: m)
qed

lemma debounce_spec_first:
  assumes "\<forall>m\<in>set ms. 3000 \<le> fst m"
  shows "debounce_spec (Some 0) ms = debounce_spec None ms"
  using assms by (cases ms) auto

text \<open>
  Claim C8. For every sequence of progress messages delivered to an execution whose
  caller gave a progress callback, the texts the callback is invoked with are exactly
  those of the messages that arrive at least 3000 ms after the last message that
  invoked it, the first message always invoking it; the other messages are dropped and
  never delivered later. The clock reads milliseconds since 1970, so every reading is
  at least 3000: the code starts \<open>lastProgressTime\<close> at 0.
\<close>

theorem progress_callback_debounced:
  assumes "execute svc0 params t0 = (Inr c, svc)"
    and "onProgress params"
    and "\<forall>m\<in>set ms. 3000 \<le> fst m"
  shows "onProgress_calls (snd (handle_events (progress_events ms) (svc, c))) =
           debounce_spec None ms"
proof -
  have allowed: "allowed (checkBudget (costTracker svc0)
                   (cfg_dailyBudgetLimit (cfg_limits (config svc0)))
                   (Some (cfg_maxBudgetPerTask (cfg_limits (config svc0)))))"
  proof (rule ccontr)
    assume "\<not> ?thesis"
    from execute_not_allowed [OF this, of params t0] assms(1) show False by simp
  qed
  from execute_allowed_task [OF allowed, of params t0] assms(1) assms(2)
  have c: "onProgress_given c" "lastProgressTime c = 0" "onProgress_calls c = []"
    by auto
  from handle_progress_events [OF c(1), of ms svc] c(2,3)
  have "onProgress_calls (snd (handle_events (progress_events ms) (svc, c))) =
          debounce_spec (Some 0) ms"
    by simp
  with debounce_spec_first [OF assms(3)] show ?thesis by simp
qed

lemma example_execute:
  "execute (example_service 0) example_params 1700000000000 =
     (Inr (projr (fst (execute (example_service 0) example_params 1700000000000))),
      snd (execute (example_service 0) example_params 1700000000000))"
  by (simp add: execute_def Let_def checkBudget_def getDailyCost_def example_service_def
        example_config_def fresh_db_def reserve_def insert_execution_def prod_eq_iff
        budget_10_3_pending)

theorem progress_callback_debounced_witness:
  "onProgress example_params \<and>
   list_all (\<lambda>m. 3000 \<le> fst m)
     [(1700000000500::int, ''a'', ''t1''), (1700000001000, ''b'', ''t2''),
      (1700000003499, ''c'', ''t3''), (1700000003500, ''d'', ''t4''),
      (1700000009000, ''e'', ''t5'')] \<and>
   onProgress_calls (snd (example_run (progress_events
      [(1700000000500, ''a'', ''t1''), (1700000001000, ''b'', ''t2''),
       (1700000003499, ''c'', ''t3''), (1700000003500, ''d'', ''t4''),
       (1700000009000, ''e'', ''t5'')]))) = [''a'', ''d'', ''e'']"
proof -
  have p: "onProgress example_params" by (simp add: example_params_def)
  have t: "\<forall>m\<in>set [(1700000000500::int, ''a'', ''t1''), (1700000001000, ''b'', ''t2''),
              (1700000003499, ''c'', ''t3''), (1700000003500, ''d'', ''t4''),
              (1700000009000, ''e'', ''t5'')]. 3000 \<le> fst m"
    by simp
  from progress_callback_debounced [OF example_execute p t] p t
  show ?thesis by (simp add: example_run_def)
qed

text \<open>
  Claim C1 at a failing input. The timer fires and the status \<open>timeout\<close> is
  persisted; the worker's result arrives afterwards and the status is persisted
  again, as \<open>completed\<close>. The same happens when the killed worker exits: the status
  becomes \<open>error\<close>. The timer's callback does not set \<open>resultReceived\<close>, and
  \<open>onMessage\<close> does not look at it.
\<close>

theorem late_result_overwrites_timeout_status:
  "status_of (fst (example_run [(1700000000001, Spawned ''flowmate-1''),
                                (1700000000050, TimerFired)])) 1 = Some Timeout \<and>
   status_of (fst (example_run [(1700000000001, Spawned ''flowmate-1''),
                                (1700000000050, TimerFired),
                                (1700000000060,
                                 Message (IpcResult ''late'' (double_of_int 1) example_usage
                                            (double_of_int 60) (double_of_int 1)))])) 1
     = Some Completed \<and>
   status_of (fst (example_run [(1700000000001, Spawned ''flowmate-1''),
                                (1700000000050, TimerFired),
                                (1700000000060, Exit None (Some ''SIGTERM''))])) 1
     = Some Error"
  by (simp add: example_run_def execute_def Let_def checkBudget_def getDailyCost_def
        example_service_def example_config_def example_params_def fresh_db_def reserve_def
        insert_execution_def update_db_def update_execution_def handle_event_def settle_def
        call_release_def status_of_def budget_10_3_pending)

section \<open>Properties of the message channel\<close>


subsection \<open>Strings\<close>

lemma hex_value_hex_digit: "d < 16 \<Longrightarrow> hex_value (hex_digit d) = Some d"
  by (auto simp: hex_value_def hex_digit_def)

lemma hex4_unicode:
  assumes "c < 65536"
  shows "hex4 (hex_digit (c div 4096 mod 16)) (hex_digit (c div 256 mod 16))
              (hex_digit (c div 16 mod 16)) (hex_digit (c mod 16)) = Some c"
proof -
  have top: "c div 4096 mod 16 = c div 4096" using assms by (simp add: less_mult_imp_div_less)
  have d1: "c div 256 = c div 16 div 16" by (simp add: div_mult2_eq)
  have d2: "c div 4096 = c div 256 div 16" by (simp add: div_mult2_eq)
  have e1: "c = 16 * (c div 16) + c mod 16" by simp
  have e2: "c div 16 = 16 * (c div 256) + c div 16 mod 16" unfolding d1 by simp
  have e3: "c div 256 = 16 * (c div 4096) + c div 256 mod 16" unfolding d2 by simp
  from e1 e2 e3
  have "4096 * (c div 4096) + 256 * (c div 256 mod 16) + 16 * (c div 16 mod 16) + c mod 16 = c"
    by linarith
  moreover have "c div 4096 < 16" using assms by (simp add: less_mult_imp_div_less)
  ultimately show ?thesis by (simp add: hex4_def hex_value_hex_digit top)
qed

lemma parse_string_raw:
  "c \<noteq> 34 \<Longrightarrow> c \<noteq> 92 \<Longrightarrow> \<not> c < 32 \<Longrightarrow> parse_string (c # t) = cons_unit c (parse_string t)"
  by simp

lemma parse_string_simple:
  "simple_escape e = Some u \<Longrightarrow> e \<noteq> 117 \<Longrightarrow> parse_string (92 # e # t) = cons_unit u (parse_string t)"
  by simp

lemma parse_string_unicode:
  "hex4 a b c d = Some u \<Longrightarrow> parse_string (92 # 117 # a # b # c # d # t) = cons_unit u (parse_string t)"
  by simp

lemma parse_string_close: "parse_string (34 # t) = Some ([], t)"
  by simp

lemma parse_string_quote_unit:
  "parse_string (quote_unit c @ t) = cons_unit c (parse_string t)"
proof -
  consider "c = 8" | "c = 9" | "c = 10" | "c = 12" | "c = 13" | "c = 34" | "c = 92"
    | "c \<notin> {8, 9, 10, 12, 13, 34, 92}" "c < 32 \<or> is_lead c \<or> is_trail c"
    | "c \<notin> {8, 9, 10, 12, 13, 34, 92}" "\<not> (c < 32 \<or> is_lead c \<or> is_trail c)"
    by blast
  then show ?thesis
  proof cases
    case 8
    then have "c < 65536" by (auto simp: is_lead_def is_trail_def)
    from hex4_unicode [OF this] 8 show ?thesis
      by (simp add: quote_unit_def unicode_escape_def parse_string_unicode del: parse_string.simps)
  next
    case 9
    then show ?thesis by (simp add: quote_unit_def parse_string_raw del: parse_string.simps)
  qed (simp_all add: quote_unit_def parse_string_simple simple_escape_def del: parse_string.simps)
qed


lemma parse_string_quote_units:
  "parse_string (quote_units s @ 34 # rest) = Some (s, rest)"
proof (induction s rule: quote_units.induct)
  case 1
  then show ?case by simp
next
  case (2 c)
  then show ?case
    by (simp add: parse_string_quote_unit parse_string_close cons_unit_def del: parse_string.simps)
next
  case (3 c d cs)
  show ?case
  proof (cases "is_lead c \<and> is_trail d")
    case True
    then have c: "c \<noteq> 34" "c \<noteq> 92" "\<not> c < 32" and d: "d \<noteq> 34" "d \<noteq> 92" "\<not> d < 32"
      by (auto simp: is_lead_def is_trail_def)
    from True have q: "quote_units (c # d # cs) = c # d # quote_units cs" by simp
    from 3(1) [OF True] show ?thesis
      unfolding q by (simp add: parse_string_raw [OF c] parse_string_raw [OF d] cons_unit_def del: parse_string.simps)
  next
    case False
    then have q: "quote_units (c # d # cs) = quote_unit c @ quote_units (d # cs)" by auto
    from 3(2) [OF False] show ?thesis
      unfolding q by (simp add: parse_string_quote_unit cons_unit_def del: parse_string.simps quote_units.simps)
  qed
qed

lemma parse_string_QuoteJSONString:
  "parse_string (tl (QuoteJSONString s) @ rest) = Some (s, rest)"
  by (simp add: QuoteJSONString_def parse_string_quote_units del: parse_string.simps)

subsection \<open>Numbers and the first character of a value\<close>

lemma scan_number_full:
  assumes "scan_number lit = Some (lit, [])"
  shows "takeWhile is_number_unit lit = lit \<and> valid_number lit"
proof -
  from assms have "valid_number (takeWhile is_number_unit lit)"
    and "takeWhile is_number_unit lit = lit"
    by (simp_all add: scan_number_def Let_def split: if_splits)
  then show ?thesis by simp
qed

lemma scan_number_append:
  assumes "scan_number lit = Some (lit, [])" and "ends_number rest"
  shows "scan_number (lit @ rest) = Some (lit, rest)"
proof -
  from scan_number_full [OF assms(1)] have tw: "takeWhile is_number_unit lit = lit"
    and v: "valid_number lit" by simp_all
  from tw have all: "\<forall>x\<in>set lit. is_number_unit x"
    by (simp add: takeWhile_eq_all_conv)
  from assms(2) have r: "takeWhile is_number_unit rest = []" "dropWhile is_number_unit rest = rest"
    by (auto simp: ends_number_def split: list.splits)
  from all r have "takeWhile is_number_unit (lit @ rest) = lit"
    "dropWhile is_number_unit (lit @ rest) = rest"
    by simp_all
  with v show ?thesis by (simp add: scan_number_def)
qed

lemma scan_number_head:
  assumes "scan_number lit = Some (lit, [])"
  obtains c t where "lit = c # t" and "is_digit c \<or> c = 45"
proof -
  from scan_number_full [OF assms] have v: "valid_number lit" by simp
  then obtain c t where l: "lit = c # t"
    by (cases lit) (auto simp: valid_number_def)
  from v l have "is_digit c \<or> c = 45"
    by (auto simp: valid_number_def is_digit_def split: if_splits list.splits)
  with l that show ?thesis by blast
qed

lemma skip_ws_head: "\<not> is_json_ws c \<Longrightarrow> skip_ws (c # r) = c # r"
  by (simp add: skip_ws_def)

lemma pv_string:
  "parse_value rt (Suc k) (34 # r) =
     (case parse_string r of None \<Rightarrow> None | Some (str, r') \<Rightarrow> Some (JStr str, r'))"
  by (simp add: skip_ws_def is_json_ws_def del: parse_string.simps)

lemma pv_null: "parse_value rt (Suc k) (js ''null'' @ rest) = Some (JNull, rest)"
  by (simp add: skip_ws_def is_json_ws_def js_def)

lemma pv_true: "parse_value rt (Suc k) (js ''true'' @ rest) = Some (JBool True, rest)"
  by (simp add: skip_ws_def is_json_ws_def js_def)

lemma pv_false: "parse_value rt (Suc k) (js ''false'' @ rest) = Some (JBool False, rest)"
  by (simp add: skip_ws_def is_json_ws_def js_def)

lemma pv_number:
  assumes "is_digit c \<or> c = 45"
  shows "parse_value rt (Suc k) (c # t) =
           (case scan_number (c # t) of
              None \<Rightarrow> None
            | Some (lit, r') \<Rightarrow> Some (JNum (StringToNumber rt lit), r'))"
  using assms by (auto simp: skip_ws_def is_json_ws_def is_digit_def js_def)

lemma pv_object_empty: "parse_value rt (Suc k) (123 # 125 # rest) = Some (JObj [], rest)"
  by (simp add: skip_ws_def is_json_ws_def)

lemma pv_object:
  "parse_value rt (Suc k) (123 # 34 # r) =
     (case parse_members rt k (34 # r) of
        None \<Rightarrow> None
      | Some (kvs, r'') \<Rightarrow> Some (JObj (make_object kvs), r''))"
  by (simp add: skip_ws_def is_json_ws_def)

lemma pv_array_empty: "parse_value rt (Suc k) (91 # 93 # rest) = Some (JArr [], rest)"
  by (simp add: skip_ws_def is_json_ws_def)

lemma pv_array:
  assumes "\<not> is_json_ws d" and "d \<noteq> 93"
  shows "parse_value rt (Suc k) (91 # d # r) =
     (case parse_elements rt k (d # r) of
        None \<Rightarrow> None
      | Some (vs, r'') \<Rightarrow> Some (JArr vs, r''))"
  using assms by (simp add: skip_ws_def is_json_ws_def)

lemma set_property_fresh:
  "k \<notin> fst ` set ps \<Longrightarrow> set_property k v ps = ps @ [(k, v)]"
  by (induction ps) auto

lemma foldl_set_property:
  "distinct (map fst (acc @ kvs)) \<Longrightarrow>
   foldl (\<lambda>ps (k, v). set_property k v ps) acc kvs = acc @ kvs"
proof (induction kvs arbitrary: acc)
  case Nil
  then show ?case by simp
next
  case (Cons kv kvs)
  obtain k v where kv: "kv = (k, v)" by (cases kv)
  from Cons.prems have fresh: "k \<notin> fst ` set acc" by (auto simp: kv)
  from Cons.prems have "distinct (map fst ((acc @ [(k, v)]) @ kvs))" by (auto simp: kv)
  from Cons.IH [OF this] show ?case by (simp add: kv set_property_fresh [OF fresh])
qed

lemma make_object_distinct: "distinct (map fst kvs) \<Longrightarrow> make_object kvs = kvs"
  using foldl_set_property [of "[]" kvs] by (simp add: make_object_def)

lemma stringify_hd:
  assumes "json_safe rt v"
  shows "JSON_stringify rt v \<noteq> [] \<and> \<not> is_json_ws (hd (JSON_stringify rt v)) \<and>
         hd (JSON_stringify rt v) \<noteq> 93 \<and> hd (JSON_stringify rt v) \<noteq> 125"
proof (cases v)
  case (JNum n)
  with assms obtain lit where lit: "NumberToString rt n = Some lit" "scan_number lit = Some (lit, [])"
    by (auto simp: number_round_trips_def split: option.splits)
  from scan_number_head [OF lit(2)] obtain c t where "lit = c # t" "is_digit c \<or> c = 45" by blast
  with lit JNum show ?thesis by (auto simp: is_digit_def is_json_ws_def)
qed (auto simp: js_def is_json_ws_def QuoteJSONString_def)

lemma stringify_head:
  assumes "json_safe rt v"
  obtains c t where "JSON_stringify rt v = c # t" and "\<not> is_json_ws c" and "c \<noteq> 93" and "c \<noteq> 125"
  using stringify_hd [OF assms] by (cases "JSON_stringify rt v") auto

lemma pe_step:
  assumes "parse_value rt k (sv @ d # tail) = Some (v, d # tail)" and "d = 44 \<or> d = 93"
  shows "parse_elements rt (Suc k) (sv @ d # tail) =
           (if d = 44 then (case parse_elements rt k tail of
                              None \<Rightarrow> None
                            | Some (vs, r) \<Rightarrow> Some (v # vs, r))
            else Some ([v], tail))"
  using assms by (auto simp: skip_ws_def is_json_ws_def)

lemma pm_step:
  assumes "parse_value rt k (sv @ d # tail) = Some (v, d # tail)" and "d = 44 \<or> d = 125"
  shows "parse_members rt (Suc k) (QuoteJSONString key @ 58 # sv @ d # tail) =
           (if d = 44 then (case parse_members rt k tail of
                              None \<Rightarrow> None
                            | Some (kvs, r) \<Rightarrow> Some ((key, v) # kvs, r))
            else Some ([(key, v)], tail))"
  using assms
  by (auto simp: QuoteJSONString_def skip_ws_def is_json_ws_def parse_string_quote_units
           simp del: parse_string.simps)

lemma ends_number_delims: "ends_number (44 # r)" "ends_number (93 # r)" "ends_number (125 # r)" "ends_number []"
  by (simp_all add: ends_number_def is_number_unit_def is_digit_def)

lemma parse_elements_join:
  assumes "\<And>v k rest. v \<in> set vs \<Longrightarrow> ends_number rest \<Longrightarrow> length (JSON_stringify rt v) \<le> k \<Longrightarrow>
             parse_value rt k (JSON_stringify rt v @ rest) = Some (v, rest)"
    and "vs \<noteq> []"
    and "length (join_commas (map (JSON_stringify rt) vs)) < k"
  shows "parse_elements rt k (join_commas (map (JSON_stringify rt) vs) @ 93 # rest) = Some (vs, rest)"
  using assms
proof (induction vs arbitrary: k)
  case Nil
  then show ?case by simp
next
  case (Cons v ws)
  from Cons.prems(3) obtain k' where k: "k = Suc k'" by (cases k) auto
  show ?case
  proof (cases ws)
    case Nil
    from Cons.prems(3) have len: "length (JSON_stringify rt v) \<le> k'" by (simp add: Nil k)
    from Cons.prems(1) [of v "93 # rest" k', OF _ ends_number_delims(2) len]
    have "parse_value rt k' (JSON_stringify rt v @ 93 # rest) = Some (v, 93 # rest)" by simp
    from pe_step [OF this] show ?thesis by (simp add: Nil k)
  next
    case (Cons w ws')
    let ?tail = "join_commas (map (JSON_stringify rt) ws) @ 93 # rest"
    have j: "join_commas (map (JSON_stringify rt) (v # ws)) @ 93 # rest =
             JSON_stringify rt v @ 44 # ?tail"
      by (simp add: Cons)
    from Cons.prems(3) have len: "length (JSON_stringify rt v) \<le> k'"
      and len': "length (join_commas (map (JSON_stringify rt) ws)) < k'"
      by (simp_all add: Cons k)
    from Cons.prems(1) [of v "44 # ?tail" k', OF _ ends_number_delims(1) len]
    have "parse_value rt k' (JSON_stringify rt v @ 44 # ?tail) = Some (v, 44 # ?tail)" by simp
    from pe_step [OF this]
    have step: "parse_elements rt k (JSON_stringify rt v @ 44 # ?tail) =
                (case parse_elements rt k' ?tail of None \<Rightarrow> None | Some (vs, r) \<Rightarrow> Some (v # vs, r))"
      by (simp add: k)
    have "parse_elements rt k' ?tail = Some (ws, rest)"
    proof (rule Cons.IH)
      show "ws \<noteq> []" by (simp add: Cons)
      show "length (join_commas (map (JSON_stringify rt) ws)) < k'" by (rule len')
      show "parse_value rt k (JSON_stringify rt v @ rest) = Some (v, rest)"
        if "v \<in> set ws" "ends_number rest" "length (JSON_stringify rt v) \<le> k" for v k rest
        using that Cons.prems(1) by simp
    qed
    with step show ?thesis unfolding j by simp
  qed
qed

subsection \<open>Values\<close>

lemma stringify_object:
  "JSON_stringify rt (JObj kvs) = 123 # join_commas (map (member_text rt) kvs) @ [125]"
proof -
  have "(\<lambda>(k, v). QuoteJSONString k @ 58 # JSON_stringify rt v) = member_text rt"
    by (auto simp: member_text_def fun_eq_iff)
  then show ?thesis by simp
qed

lemma parse_members_join:
  assumes "\<And>kv k rest. kv \<in> set kvs \<Longrightarrow> ends_number rest \<Longrightarrow>
             length (JSON_stringify rt (snd kv)) \<le> k \<Longrightarrow>
             parse_value rt k (JSON_stringify rt (snd kv) @ rest) = Some (snd kv, rest)"
    and "kvs \<noteq> []"
    and "length (join_commas (map (member_text rt) kvs)) < k"
  shows "parse_members rt k (join_commas (map (member_text rt) kvs) @ 125 # rest) = Some (kvs, rest)"
  using assms
proof (induction kvs arbitrary: k)
  case Nil
  then show ?case by simp
next
  case (Cons kv ws)
  from Cons.prems(3) obtain k' where k: "k = Suc k'" by (cases k) auto
  obtain key v where kv: "kv = (key, v)" by (cases kv)
  have m: "member_text rt kv = QuoteJSONString key @ 58 # JSON_stringify rt v"
    by (simp add: member_text_def kv)
  show ?case
  proof (cases ws)
    case Nil
    from Cons.prems(3) have len: "length (JSON_stringify rt v) \<le> k'" by (simp add: Nil k m)
    from Cons.prems(1) [of kv "125 # rest" k'] len
    have "parse_value rt k' (JSON_stringify rt v @ 125 # rest) = Some (v, 125 # rest)"
      by (simp add: kv ends_number_delims)
    from pm_step [OF this, of key] show ?thesis
      by (simp add: Nil k member_text_def kv del: parse_members.simps parse_value.simps)
  next
    case (Cons w ws')
    let ?tail = "join_commas (map (member_text rt) ws) @ 125 # rest"
    have j: "join_commas (map (member_text rt) (kv # ws)) @ 125 # rest =
             QuoteJSONString key @ 58 # JSON_stringify rt v @ 44 # ?tail"
      by (simp add: Cons m)
    from Cons.prems(3) have len: "length (JSON_stringify rt v) \<le> k'"
      and len': "length (join_commas (map (member_text rt) ws)) < k'"
      by (simp_all add: Cons k m)
    from Cons.prems(1) [of kv "44 # ?tail" k'] len
    have "parse_value rt k' (JSON_stringify rt v @ 44 # ?tail) = Some (v, 44 # ?tail)"
      by (simp add: kv ends_number_delims)
    from pm_step [OF this, of key]
    have step: "parse_members rt k (QuoteJSONString key @ 58 # JSON_stringify rt v @ 44 # ?tail) =
                (case parse_members rt k' ?tail of None \<Rightarrow> None | Some (kvs, r) \<Rightarrow> Some ((key, v) # kvs, r))"
      by (simp add: k)
    have "parse_members rt k' ?tail = Some (ws, rest)"
    proof (rule Cons.IH)
      show "ws \<noteq> []" by (simp add: Cons)
      show "length (join_commas (map (member_text rt) ws)) < k'" by (rule len')
      show "parse_value rt k (JSON_stringify rt (snd kv) @ rest) = Some (snd kv, rest)"
        if "kv \<in> set ws" "ends_number rest" "length (JSON_stringify rt (snd kv)) \<le> k" for kv k rest
        using that Cons.prems(1) by simp
    qed
    with step show ?thesis unfolding j by (simp add: kv del: parse_members.simps parse_value.simps)
  qed
qed

lemma member_text_head: "member_text rt kv \<noteq> [] \<and> hd (member_text rt kv) = 34"
  by (simp add: member_text_def QuoteJSONString_def)

lemma join_commas_head:
  "xs \<noteq> [] \<Longrightarrow> hd xs \<noteq> [] \<Longrightarrow> join_commas xs \<noteq> [] \<and> hd (join_commas xs) = hd (hd xs)"
  by (cases xs rule: join_commas.cases) auto

lemma parse_value_stringify:
  assumes "json_safe rt v" and "ends_number rest" and "length (JSON_stringify rt v) \<le> k"
  shows "parse_value rt k (JSON_stringify rt v @ rest) = Some (v, rest)"
  using assms
proof (induction v arbitrary: k rest)
  case JNull
  then obtain k' where "k = Suc k'" by (cases k) (auto simp: js_def)
  then show ?case by (simp add: pv_null del: parse_value.simps)
next
  case (JBool b)
  then obtain k' where "k = Suc k'" by (cases k) (auto simp: js_def split: if_splits)
  then show ?case by (simp add: pv_true pv_false del: parse_value.simps)
next
  case (JNum n)
  then obtain lit where lit: "NumberToString rt n = Some lit" "scan_number lit = Some (lit, [])"
    "StringToNumber rt lit = n"
    by (auto simp: number_round_trips_def split: option.splits)
  from scan_number_head [OF lit(2)] obtain c t where ct: "lit = c # t" "is_digit c \<or> c = 45" by blast
  from JNum.prems(3) lit ct obtain k' where k: "k = Suc k'" by (cases k) auto
  from scan_number_append [OF lit(2) JNum.prems(2)]
  have "scan_number ((c # t) @ rest) = Some (c # t, rest)" by (simp add: ct)
  with pv_number [OF ct(2), of rt k' "t @ rest"] lit ct show ?case by (simp add: k)
next
  case (JStr s)
  then obtain k' where k: "k = Suc k'" by (cases k) (auto simp: QuoteJSONString_def)
  show ?case
    unfolding k
    by (simp add: QuoteJSONString_def pv_string parse_string_quote_units
          del: parse_value.simps parse_string.simps)
next
  case (JArr vs)
  from JArr.prems(3) obtain k' where k: "k = Suc k'" by (cases k) auto
  show ?case
  proof (cases "vs = []")
    case True
    then show ?thesis by (simp add: k pv_array_empty del: parse_value.simps)
  next
    case False
    let ?body = "join_commas (map (JSON_stringify rt) vs)"
    from False obtain v0 vs' where vs: "vs = v0 # vs'" by (cases vs) auto
    from JArr.prems(1) have safe0: "json_safe rt v0" by (simp add: vs)
    from stringify_hd [OF safe0] False
    have hd: "?body \<noteq> []" "\<not> is_json_ws (hd ?body)" "hd ?body \<noteq> 93"
      using join_commas_head [of "map (JSON_stringify rt) vs"] by (auto simp: vs)
    then obtain d r where body: "?body = d # r" "\<not> is_json_ws d" "d \<noteq> 93"
      by (cases ?body) auto
    have elems: "parse_elements rt k' (?body @ 93 # rest) = Some (vs, rest)"
    proof (rule parse_elements_join)
      show "vs \<noteq> []" by (rule False)
      show "length ?body < k'" using JArr.prems(3) by (simp add: k)
      show "parse_value rt k (JSON_stringify rt v @ rest) = Some (v, rest)"
        if "v \<in> set vs" "ends_number rest" "length (JSON_stringify rt v) \<le> k" for v k rest
      proof -
        from that(1) JArr.prems(1) have "json_safe rt v" by (simp add: list_all_iff)
        from JArr.IH [OF that(1) this that(2,3)] show ?thesis .
      qed
    qed
    have "JSON_stringify rt (JArr vs) @ rest = 91 # d # (r @ 93 # rest)"
      using body(1) by simp
    moreover have "parse_elements rt k' (d # (r @ 93 # rest)) = Some (vs, rest)"
      using elems body(1) by simp
    ultimately show ?thesis
      using pv_array [OF body(2,3), of rt k' "r @ 93 # rest"] by (simp add: k del: parse_value.simps)
  qed
next
  case (JObj kvs)
  from JObj.prems(3) obtain k' where k: "k = Suc k'" by (cases k) auto
  show ?case
  proof (cases "kvs = []")
    case True
    then show ?thesis by (simp add: k pv_object_empty del: parse_value.simps)
  next
    case False
    let ?body = "join_commas (map (member_text rt) kvs)"
    from False obtain kv0 kvs' where kvs: "kvs = kv0 # kvs'" by (cases kvs) auto
    have "hd (map (member_text rt) kvs) \<noteq> []" "hd (hd (map (member_text rt) kvs)) = 34"
      using member_text_head [of rt kv0] by (simp_all add: kvs)
    with join_commas_head [of "map (member_text rt) kvs"] False
    obtain r where body: "?body = 34 # r" by (cases ?body) auto
    have members: "parse_members rt k' (?body @ 125 # rest) = Some (kvs, rest)"
    proof (rule parse_members_join)
      show "kvs \<noteq> []" by (rule False)
      show "length ?body < k'" using JObj.prems(3) unfolding stringify_object by (simp add: k)
      show "parse_value rt k (JSON_stringify rt (snd kv) @ rest) = Some (snd kv, rest)"
        if "kv \<in> set kvs" "ends_number rest" "length (JSON_stringify rt (snd kv)) \<le> k" for kv k rest
      proof -
        from that(1) JObj.prems(1) have safe: "json_safe rt (snd kv)" by (auto simp: list_all_iff)
        have sn: "snd kv \<in> Basic_BNFs.snds kv" by (cases kv) simp
        show ?thesis by (rule JObj.IH [OF that(1) sn safe that(2) that(3)])
      qed
    qed
    from JObj.prems(1) have mk: "make_object kvs = kvs" by (simp add: make_object_distinct)
    have "JSON_stringify rt (JObj kvs) @ rest = 123 # 34 # (r @ 125 # rest)"
      unfolding stringify_object using body by simp
    moreover have "parse_members rt k' (34 # (r @ 125 # rest)) = Some (kvs, rest)"
      using members body by simp
    ultimately show ?thesis
      using pv_object [of rt k' "r @ 125 # rest"] mk by (simp add: k del: parse_value.simps)
  qed
qed

lemma JSON_parse_stringify:
  assumes "json_safe rt v"
  shows "JSON_parse rt (JSON_stringify rt v) = Some v"
  using parse_value_stringify [OF assms ends_number_delims(4), of "Suc (length (JSON_stringify rt v))"]
  by (simp add: JSON_parse_def skip_ws_def del: parse_value.simps)

subsection \<open>Messages\<close>

lemma js_trim_id:
  assumes "s = c # t" and "\<not> is_js_whitespace c" and "\<not> is_js_whitespace (last s)"
  shows "js_trim s = s"
proof -
  from assms(1,2) have d: "dropWhile is_js_whitespace s = s" by simp
  define b where "b = butlast s"
  define l where "l = last s"
  from assms(1) have s: "s = b @ [l]" by (simp add: b_def l_def)
  from assms(3) have l: "\<not> is_js_whitespace l" by (simp add: l_def)
  have "dropWhile is_js_whitespace (rev s) = dropWhile is_js_whitespace (l # rev b)"
    by (subst s) simp
  also from l have "\<dots> = l # rev b" by simp
  also have "\<dots> = rev (b @ [l])" by simp
  finally have "dropWhile is_js_whitespace (rev s) = rev (b @ [l])" .
  then have "rev (dropWhile is_js_whitespace (rev s)) = b @ [l]" by simp
  with s d show ?thesis by (simp add: js_trim_def)
qed

lemma js_trim_object: "js_trim (JSON_stringify rt (JObj kvs)) = JSON_stringify rt (JObj kvs)"
  by (rule js_trim_id [of _ 123 "join_commas (map (\<lambda>(k, v). QuoteJSONString k @ 58 # JSON_stringify rt v) kvs) @ [125]"])
     (simp_all add: is_js_whitespace_def)

lemma parseIpcLine_serializeIpc:
  assumes "json_safe rt m" and "isValidIpcMessage rt m"
  shows "parseIpcLine rt (serializeIpc rt m) = Some m"
proof -
  from assms(2) obtain kvs where m: "m = JObj kvs"
    by (cases m) (auto simp: isValidIpcMessage_def has_property_def)
  have "JSON_stringify rt (JObj kvs) \<noteq> []" by simp
  with JSON_parse_stringify [OF assms(1)] assms(2) show ?thesis
    unfolding m
    by (simp add: parseIpcLine_def serializeIpc_def js_trim_object Let_def del: JSON_stringify.simps)
qed

lemma valid_progress: "isValidIpcMessage rt (progress_message text timestamp)"
  by (simp add: isValidIpcMessage_def progress_message_def js_not_def js_typeof_def
        has_property_def get_property_def IPC_TYPES_def js_def Let_def)

lemma valid_result: "isValidIpcMessage rt (result_message text cost usage duration turns)"
  by (simp add: isValidIpcMessage_def result_message_def token_usage_object_def js_not_def js_typeof_def
        has_property_def get_property_def IPC_TYPES_def js_def Let_def split: prod.splits)

lemma valid_error: "isValidIpcMessage rt (error_message message cost usage duration turns)"
  by (simp add: isValidIpcMessage_def error_message_def token_usage_object_def js_not_def js_typeof_def
        has_property_def get_property_def IPC_TYPES_def js_def Let_def split: prod.splits)

lemma safe_progress: "json_safe rt (progress_message text timestamp)"
  by (simp add: progress_message_def js_def)

lemma safe_result:
  assumes "list_all (number_round_trips rt) [cost, i, out, cr, cw, duration, turns]"
  shows "json_safe rt (result_message text cost (i, out, cr, cw) duration turns)"
  using assms by (simp add: result_message_def token_usage_object_def js_def)

lemma safe_error:
  assumes "list_all (number_round_trips rt) [cost, i, out, cr, cw, duration, turns]"
  shows "json_safe rt (error_message message cost (i, out, cr, cw) duration turns)"
  using assms by (simp add: error_message_def token_usage_object_def js_def)

lemma not_prefixed_line:
  assumes "\<not> startsWith line IPC_PREFIX"
  shows "container_on_line rt line = LogDebug line \<and> fst (local_on_line rt line buf) = LogDebug line"
  using assms by (simp add: container_on_line_def local_on_line_def Let_def)


text \<open>
  Claim C5, as amended. Parsing the serialized form of a progress message gives the
  message back; so does parsing the serialized form of a result or error message whose
  numbers all survive JSON (every finite number does). A line of the side channel
  that does not start with the prefix is logged as diagnostic output by both backends
  and is not delivered to the message handler.
\<close>

theorem ipc_round_trip_and_prefix:
  "parseIpcLine rt (serializeIpc rt (progress_message body timestamp))
     = Some (progress_message body timestamp) \<and>
   (list_all (number_round_trips rt) [cost, i, out, cr, cw, duration, turns] \<longrightarrow>
      parseIpcLine rt (serializeIpc rt (result_message body cost (i, out, cr, cw) duration turns))
        = Some (result_message body cost (i, out, cr, cw) duration turns) \<and>
      parseIpcLine rt (serializeIpc rt (error_message message cost (i, out, cr, cw) duration turns))
        = Some (error_message message cost (i, out, cr, cw) duration turns)) \<and>
   (\<not> startsWith line IPC_PREFIX \<longrightarrow>
      container_on_line rt line = LogDebug line \<and>
      fst (local_on_line rt line buf) = LogDebug line)"
proof -
  have p: "parseIpcLine rt (serializeIpc rt (progress_message body timestamp))
     = Some (progress_message body timestamp)"
    by (rule parseIpcLine_serializeIpc [OF safe_progress valid_progress])
  have r: "parseIpcLine rt (serializeIpc rt (result_message body cost (i, out, cr, cw) duration turns))
        = Some (result_message body cost (i, out, cr, cw) duration turns)"
    if "list_all (number_round_trips rt) [cost, i, out, cr, cw, duration, turns]"
  proof -
    from safe_result [OF that]
    have "json_safe rt (result_message body cost (i, out, cr, cw) duration turns)" .
    from parseIpcLine_serializeIpc [OF this valid_result] show ?thesis .
  qed
  have e: "parseIpcLine rt (serializeIpc rt (error_message message cost (i, out, cr, cw) duration turns))
        = Some (error_message message cost (i, out, cr, cw) duration turns)"
    if "list_all (number_round_trips rt) [cost, i, out, cr, cw, duration, turns]"
  proof -
    from safe_error [OF that]
    have "json_safe rt (error_message message cost (i, out, cr, cw) duration turns)" .
    from parseIpcLine_serializeIpc [OF this valid_error] show ?thesis .
  qed
  from p r e not_prefixed_line [of line rt buf] show ?thesis by blast
qed

theorem ipc_round_trip_and_prefix_witness:
  "list_all (number_round_trips example_numbers)
     [Natural 1, Natural 10, Natural 20, Natural 0, Natural 0, Natural 1500, Natural 3] \<and>
   parseIpcLine example_numbers (serializeIpc example_numbers
      (result_message (js ''ok'') (Natural 1) (Natural 10, Natural 20, Natural 0, Natural 0)
         (Natural 1500) (Natural 3)))
     = Some (result_message (js ''ok'') (Natural 1) (Natural 10, Natural 20, Natural 0, Natural 0)
         (Natural 1500) (Natural 3)) \<and>
   \<not> startsWith (js ''npm warn deprecated'') IPC_PREFIX \<and>
   container_on_line example_numbers (js ''npm warn deprecated'') = LogDebug (js ''npm warn deprecated'')"
proof -
  have n: "list_all (number_round_trips example_numbers)
     [Natural 1, Natural 10, Natural 20, Natural 0, Natural 0, Natural 1500, Natural 3]"
    by (simp add: number_round_trips_def example_numbers_def show_nat.simps digit_char_def js_def
          scan_number_def is_number_unit_def is_digit_def valid_number_def valid_fraction_def
          valid_exponent_def)
  have l: "\<not> startsWith (js ''npm warn deprecated'') IPC_PREFIX"
    by (simp add: startsWith_def IPC_PREFIX_def js_def)
  from ipc_round_trip_and_prefix [where rt = example_numbers and cost = "Natural 1"
         and i = "Natural 10" and out = "Natural 20" and cr = "Natural 0" and cw = "Natural 0"
         and duration = "Natural 1500" and turns = "Natural 3" and body = "js ''ok''"
         and line = "js ''npm warn deprecated''"]
       n l
  show ?thesis by simp
qed

text \<open>
  Claim C5 as stated fails for a message whose cost is \<open>NaN\<close>:
  \<open>JSON.stringify\<close> writes \<open>"costUsd":null\<close>, the validation rejects the parsed
  object, and \<open>parseIpcLine\<close> returns \<open>null\<close> instead of the message.
\<close>

theorem nan_cost_does_not_round_trip:
  "parseIpcLine example_numbers (serializeIpc example_numbers
      (result_message (js ''ok'') NaN (Natural 10, Natural 20, Natural 0, Natural 0)
         (Natural 1500) (Natural 3))) = None \<and>
   parseIpcLine example_numbers (serializeIpc example_numbers
      (result_message (js ''ok'') NaN (Natural 10, Natural 20, Natural 0, Natural 0)
         (Natural 1500) (Natural 3)))
     \<noteq> Some (result_message (js ''ok'') NaN (Natural 10, Natural 20, Natural 0, Natural 0)
         (Natural 1500) (Natural 3))"
  by (simp add: parseIpcLine_def serializeIpc_def result_message_def token_usage_object_def
        example_numbers_def show_nat.simps digit_char_def QuoteJSONString_def
        js_trim_def is_js_whitespace_def JSON_parse_def js_def
        skip_ws_def is_json_ws_def cons_unit_def scan_number_def is_number_unit_def is_digit_def
        valid_number_def valid_fraction_def valid_exponent_def make_object_def
        quote_unit_def is_lead_def is_trail_def
        isValidIpcMessage_def js_not_def js_typeof_def has_property_def get_property_def
        IPC_TYPES_def Let_def)

text \<open>
  Claim C10. There is a line that \<open>parseIpcLine\<close> accepts as a result message
  although its \<open>tokensUsed\<close> is the empty object, with none of the four token counts:
  the validation asks only that \<open>tokensUsed\<close> is a truthy object. The same holds for
  an error message.
\<close>

theorem parseIpcLine_accepts_empty_tokensUsed:
  "parseIpcLine rt
     (js ''{\"type\":\"result\",\"text\":\"ok\",\"costUsd\":0,\"durationMs\":0,\"tokensUsed\":{},\"numTurns\":1}'')
   = Some (JObj [(js ''type'', JStr (js ''result'')), (js ''text'', JStr (js ''ok'')),
                 (js ''costUsd'', JNum (StringToNumber rt (js ''0''))),
                 (js ''durationMs'', JNum (StringToNumber rt (js ''0''))),
                 (js ''tokensUsed'', JObj []),
                 (js ''numTurns'', JNum (StringToNumber rt (js ''1'')))]) \<and>
   parseIpcLine rt
     (js ''{\"type\":\"error\",\"message\":\"no\",\"costUsd\":0,\"durationMs\":0,\"tokensUsed\":{},\"numTurns\":1}'')
   = Some (JObj [(js ''type'', JStr (js ''error'')), (js ''message'', JStr (js ''no'')),
                 (js ''costUsd'', JNum (StringToNumber rt (js ''0''))),
                 (js ''durationMs'', JNum (StringToNumber rt (js ''0''))),
                 (js ''tokensUsed'', JObj []),
                 (js ''numTurns'', JNum (StringToNumber rt (js ''1'')))])"
  by (simp add: parseIpcLine_def js_trim_def is_js_whitespace_def JSON_parse_def js_def
        skip_ws_def is_json_ws_def cons_unit_def scan_number_def is_number_unit_def is_digit_def
        valid_number_def valid_fraction_def valid_exponent_def make_object_def
        isValidIpcMessage_def js_not_def js_typeof_def has_property_def get_property_def
        IPC_TYPES_def Let_def)

section \<open>Properties of the worker backends\<close>

lemma exit_after_messages_append:
  assumes "exit_after_messages xs" and "exit_after_messages ys"
    and "list_ex is_exit_call xs \<Longrightarrow> list_all (\<lambda>x. \<not> is_message_call x) ys"
  shows "exit_after_messages (xs @ ys)"
  using assms by (induction xs) (auto simp: list_all_iff list_ex_iff)

lemma container_on_event_exit:
  "list_ex is_exit_call (container_on_event rt tmpPath ev) \<Longrightarrow> is_close ev"
  by (cases ev)
     (auto simp: container_on_event_def container_on_line_def is_exit_call_def is_close_def
           split: option.splits if_splits)

lemma container_on_event_ordered: "exit_after_messages (container_on_event rt tmpPath ev)"
  by (cases ev)
     (auto simp: container_on_event_def is_exit_call_def is_message_call_def split: option.splits)

lemma container_run_no_message:
  "list_all (\<lambda>x. \<not> is_stderr_line x) evs \<Longrightarrow>
   list_all (\<lambda>x. \<not> is_message_call x) (container_run rt tmpPath evs)"
proof (induction evs)
  case Nil
  then show ?case by simp
next
  case (Cons ev evs)
  then show ?case
    by (cases ev)
       (auto simp: container_on_event_def is_stderr_line_def is_message_call_def split: option.splits)
qed

lemma container_run_ordered:
  "close_after_lines evs \<Longrightarrow> exit_after_messages (container_run rt tmpPath evs)"
proof (induction evs)
  case Nil
  then show ?case by simp
next
  case (Cons ev evs)
  have "exit_after_messages (container_on_event rt tmpPath ev @ container_run rt tmpPath evs)"
  proof (rule exit_after_messages_append)
    show "exit_after_messages (container_on_event rt tmpPath ev)"
      by (rule container_on_event_ordered)
    show "exit_after_messages (container_run rt tmpPath evs)"
      using Cons by simp
    show "list_all (\<lambda>x. \<not> is_message_call x) (container_run rt tmpPath evs)"
      if "list_ex is_exit_call (container_on_event rt tmpPath ev)"
      using container_on_event_exit [OF that] Cons.prems
      by (simp add: container_run_no_message)
  qed
  then show ?case by simp
qed

lemma local_on_event_exit:
  "list_ex is_exit_call (fst (local_on_event rt pid tmpPath ev st)) \<Longrightarrow> is_close ev"
  by (cases ev)
     (auto simp: local_on_event_def local_on_line_def is_exit_call_def is_close_def Let_def
           split: option.splits if_splits prod.splits)

lemma local_on_event_ordered: "exit_after_messages (fst (local_on_event rt pid tmpPath ev st))"
  by (cases ev)
     (auto simp: local_on_event_def is_exit_call_def is_message_call_def Let_def
           split: option.splits prod.splits)

lemma local_run_no_message:
  "list_all (\<lambda>x. \<not> is_stderr_line x) evs \<Longrightarrow>
   list_all (\<lambda>x. \<not> is_message_call x) (local_run rt pid tmpPath evs st)"
proof (induction evs arbitrary: st)
  case Nil
  then show ?case by simp
next
  case (Cons ev evs)
  then show ?case
    by (cases ev)
       (auto simp: local_on_event_def is_stderr_line_def is_message_call_def Let_def
             split: option.splits prod.splits)
qed

lemma local_run_ordered:
  "close_after_lines evs \<Longrightarrow> exit_after_messages (local_run rt pid tmpPath evs st)"
proof (induction evs arbitrary: st)
  case Nil
  then show ?case by simp
next
  case (Cons ev evs)
  obtain effs st1 where step: "local_on_event rt pid tmpPath ev st = (effs, st1)"
    by (cases "local_on_event rt pid tmpPath ev st")
  have "exit_after_messages (effs @ local_run rt pid tmpPath evs st1)"
  proof (rule exit_after_messages_append)
    show "exit_after_messages effs"
      using local_on_event_ordered [of rt pid tmpPath ev st] by (simp add: step)
    show "exit_after_messages (local_run rt pid tmpPath evs st1)"
      using Cons by simp
    show "list_all (\<lambda>x. \<not> is_message_call x) (local_run rt pid tmpPath evs st1)"
      if "list_ex is_exit_call effs"
      using local_on_event_exit [of rt pid tmpPath ev st] that Cons.prems
      by (simp add: step local_run_no_message)
  qed
  then show ?case by (simp add: step)
qed

lemma container_on_event_messages:
  "filter is_message_call (container_on_event rt tmpPath ev) =
     (case event_message rt ev of None \<Rightarrow> [] | Some m \<Rightarrow> [CallOnMessage m])"
  by (cases ev)
     (auto simp: container_on_event_def container_on_line_def event_message_def is_message_call_def
           split: option.splits)

lemma container_on_event_exits:
  "filter is_exit_call (container_on_event rt tmpPath ev) =
     (case event_exit ev of None \<Rightarrow> [] | Some (code, signal) \<Rightarrow> [CallOnExit code signal])"
  by (cases ev)
     (auto simp: container_on_event_def container_on_line_def event_exit_def is_exit_call_def
           split: option.splits)

lemma container_run_delivers:
  "filter is_message_call (container_run rt tmpPath evs) =
     map CallOnMessage (structured_messages rt evs)"
  by (induction evs)
     (auto simp: container_on_event_messages structured_messages_def map_filter_simps
           split: option.splits)

lemma container_run_exits:
  "filter is_exit_call (container_run rt tmpPath evs) =
     map (\<lambda>(code, signal). CallOnExit code signal) (exit_notifications evs)"
  by (induction evs)
     (auto simp: container_on_event_exits exit_notifications_def map_filter_simps
           split: option.splits)

lemma local_on_event_messages:
  "filter is_message_call (fst (local_on_event rt pid tmpPath ev st)) =
     (case event_message rt ev of None \<Rightarrow> [] | Some m \<Rightarrow> [CallOnMessage m])"
  by (cases ev)
     (auto simp: local_on_event_def local_on_line_def event_message_def is_message_call_def Let_def
           split: option.splits prod.splits)

lemma local_on_event_exits:
  "filter is_exit_call (fst (local_on_event rt pid tmpPath ev st)) =
     (case event_exit ev of None \<Rightarrow> [] | Some (code, signal) \<Rightarrow> [CallOnExit code signal])"
  by (cases ev)
     (auto simp: local_on_event_def local_on_line_def event_exit_def is_exit_call_def Let_def
           split: option.splits prod.splits)

lemma local_run_delivers:
  "filter is_message_call (local_run rt pid tmpPath evs st) =
     map CallOnMessage (structured_messages rt evs)"
proof (induction evs arbitrary: st)
  case Nil
  then show ?case by (simp add: structured_messages_def map_filter_simps)
next
  case (Cons ev evs)
  obtain effs st1 where step: "local_on_event rt pid tmpPath ev st = (effs, st1)"
    by (cases "local_on_event rt pid tmpPath ev st")
  from local_on_event_messages [of rt pid tmpPath ev st]
  have "filter is_message_call effs =
          (case event_message rt ev of None \<Rightarrow> [] | Some m \<Rightarrow> [CallOnMessage m])"
    by (simp add: step)
  with Cons.IH [of st1] show ?case
    by (simp add: step structured_messages_def map_filter_simps split: option.splits)
qed

lemma local_run_exits:
  "filter is_exit_call (local_run rt pid tmpPath evs st) =
     map (\<lambda>(code, signal). CallOnExit code signal) (exit_notifications evs)"
proof (induction evs arbitrary: st)
  case Nil
  then show ?case by (simp add: exit_notifications_def map_filter_simps)
next
  case (Cons ev evs)
  obtain effs st1 where step: "local_on_event rt pid tmpPath ev st = (effs, st1)"
    by (cases "local_on_event rt pid tmpPath ev st")
  from local_on_event_exits [of rt pid tmpPath ev st]
  have "filter is_exit_call effs =
          (case event_exit ev of None \<Rightarrow> [] | Some (code, signal) \<Rightarrow> [CallOnExit code signal])"
    by (simp add: step)
  with Cons.IH [of st1] show ?case
    by (simp add: step exit_notifications_def map_filter_simps split: option.splits)
qed

text \<open>
  Claim C9. For every run of a worker under either backend, the exit callback is
  called after the last message callback. Every structured message on the worker's
  side channel is delivered to \<open>onMessage\<close>, once and in order, also when it was still
  in the pipe at the process's \<open>exit\<close>; \<open>onExit\<close> is called once for \<open>close\<close>, the
  event both backends wait for; and no call of \<open>onMessage\<close> follows the call of
  \<open>onExit\<close>. The runtime emits \<open>close\<close> after the last line of the worker's standard
  error.
\<close>

theorem exit_callback_after_messages:
  assumes "close_after_lines evs"
  shows "filter is_message_call (container_run rt tmpPath evs) =
           map CallOnMessage (structured_messages rt evs) \<and>
         filter is_message_call (local_run rt processId tmpPath evs st) =
           map CallOnMessage (structured_messages rt evs) \<and>
         filter is_exit_call (container_run rt tmpPath evs) =
           map (\<lambda>(code, signal). CallOnExit code signal) (exit_notifications evs) \<and>
         filter is_exit_call (local_run rt processId tmpPath evs st) =
           map (\<lambda>(code, signal). CallOnExit code signal) (exit_notifications evs) \<and>
         exit_after_messages (container_run rt tmpPath evs) \<and>
         exit_after_messages (local_run rt processId tmpPath evs st)"
  using assms
  by (simp add: container_run_ordered local_run_ordered container_run_delivers
        local_run_delivers container_run_exits local_run_exits)

lemma example_progress_line:
  "parseIpcLine example_numbers (js ''{\"type\":\"progress\",\"text\":\"hi\"}'') =
     Some (JObj [(js ''type'', JStr (js ''progress'')), (js ''text'', JStr (js ''hi''))])"
  by (simp add: parseIpcLine_def js_trim_def is_js_whitespace_def JSON_parse_def js_def
        skip_ws_def is_json_ws_def cons_unit_def make_object_def
        isValidIpcMessage_def js_not_def js_typeof_def has_property_def get_property_def
        IPC_TYPES_def Let_def)

theorem exit_callback_after_messages_witness:
  "close_after_lines example_child_events \<and>
   structured_messages example_numbers example_child_events =
     [JObj [(js ''type'', JStr (js ''progress'')), (js ''text'', JStr (js ''hi''))]] \<and>
   exit_notifications example_child_events = [(Some 0, None)] \<and>
   container_run example_numbers None example_child_events =
     [LogDebug (js ''starting''),
      CallOnMessage (JObj [(js ''type'', JStr (js ''progress'')), (js ''text'', JStr (js ''hi''))]),
      CallOnExit (Some 0) None] \<and>
   local_run example_numbers ''local-1'' None example_child_events
       \<lparr>stderrBuf = [], processes = [''local-1'']\<rparr> =
     [LogDebug (js ''starting''),
      CallOnMessage (JObj [(js ''type'', JStr (js ''progress'')), (js ''text'', JStr (js ''hi''))]),
      CallOnExit (Some 0) None] \<and>
   filter is_message_call (local_run example_numbers ''local-1'' None example_child_events
       \<lparr>stderrBuf = [], processes = [''local-1'']\<rparr>) =
     [CallOnMessage (JObj [(js ''type'', JStr (js ''progress'')), (js ''text'', JStr (js ''hi''))])] \<and>
   exit_after_messages (container_run example_numbers None example_child_events) \<and>
   exit_after_messages (local_run example_numbers ''local-1'' None example_child_events
                          \<lparr>stderrBuf = [], processes = [''local-1'']\<rparr>)"
proof -
  have c: "close_after_lines example_child_events"
    by (simp add: example_child_events_def is_close_def is_stderr_line_def)
  have pre: "startsWith (js ''@flowmate {\"type\":\"progress\",\"text\":\"hi\"}'') IPC_PREFIX"
    "drop (length IPC_PREFIX) (js ''@flowmate {\"type\":\"progress\",\"text\":\"hi\"}'') =
       js ''{\"type\":\"progress\",\"text\":\"hi\"}''"
    "\<not> startsWith (js ''starting'') IPC_PREFIX"
    by (simp_all add: startsWith_def IPC_PREFIX_def js_def)
  have m: "structured_messages example_numbers example_child_events =
     [JObj [(js ''type'', JStr (js ''progress'')), (js ''text'', JStr (js ''hi''))]]"
    by (simp add: structured_messages_def example_child_events_def event_message_def
          map_filter_simps pre example_progress_line)
  have x: "exit_notifications example_child_events = [(Some 0, None)]"
    by (simp add: exit_notifications_def example_child_events_def event_exit_def map_filter_simps)
  have r: "container_run example_numbers None example_child_events =
     [LogDebug (js ''starting''),
      CallOnMessage (JObj [(js ''type'', JStr (js ''progress'')), (js ''text'', JStr (js ''hi''))]),
      CallOnExit (Some 0) None]"
    by (simp add: example_child_events_def container_on_event_def container_on_line_def pre
          example_progress_line)
  have len: "length (js ''starting'') = 8"
    by (simp add: js_def)
  have l: "local_run example_numbers ''local-1'' None example_child_events
       \<lparr>stderrBuf = [], processes = [''local-1'']\<rparr> =
     [LogDebug (js ''starting''),
      CallOnMessage (JObj [(js ''type'', JStr (js ''progress'')), (js ''text'', JStr (js ''hi''))]),
      CallOnExit (Some 0) None]"
    by (simp add: example_child_events_def local_on_event_def local_on_line_def pre
          example_progress_line Let_def MAX_STDERR_BUF_def len)
  from exit_callback_after_messages [OF c, of example_numbers None "''local-1''"
         "\<lparr>stderrBuf = [], processes = [''local-1'']\<rparr>"]
  have t: "filter is_message_call (local_run example_numbers ''local-1'' None example_child_events
             \<lparr>stderrBuf = [], processes = [''local-1'']\<rparr>) =
           map CallOnMessage (structured_messages example_numbers example_child_events)"
    and o: "exit_after_messages (container_run example_numbers None example_child_events)"
      "exit_after_messages (local_run example_numbers ''local-1'' None example_child_events
                              \<lparr>stderrBuf = [], processes = [''local-1'']\<rparr>)"
    by blast+
  from t m have t': "filter is_message_call (local_run example_numbers ''local-1'' None
             example_child_events \<lparr>stderrBuf = [], processes = [''local-1'']\<rparr>) =
     [CallOnMessage (JObj [(js ''type'', JStr (js ''progress'')), (js ''text'', JStr (js ''hi''))])]"
    by (simp only: list.map)
  from c m x r l t' o show ?thesis by blast
qed

end
